theory Spec2Isabelle
  imports Main "HOL-Library.Word"
begin

unbundle bit_operations_syntax

section \<open>The jemalloc allocator facade (JeAlloc.cc)\<close>

text \<open>
  A shallow embedding of \<^verbatim>\<open>native/cocos/renderer/core/memory/JeAlloc.cc\<close>.
  The backing allocator (jemalloc) is an external library: every call into it takes the
  allocator's answer as an explicit argument, so that the facade is a function of its
  inputs and of what the allocator replied. Memory is a store of blocks; an access that
  leaves every live block is a fault.
\<close>

subsection \<open>Machine values\<close>

type_synonym byte = "8 word"

text \<open>\<^verbatim>\<open>size_t\<close> on the 64-bit targets: addition and subtraction wrap.\<close>

type_synonym size_t = "64 word"

text \<open>A \<^verbatim>\<open>void*\<close> is the base address of a block; \<^verbatim>\<open>nullptr\<close> is 0.\<close>

type_synonym addr = nat

definition nullptr :: addr where
  "nullptr = 0"

text \<open>
  A C \<^verbatim>\<open>int\<close> (32 bits, two's complement) is an \<open>int\<close>; \<open>c_int\<close> is the
  wrap-around of a result into its range.
\<close>

definition c_int :: "int \<Rightarrow> int" where
  "c_int x = (x + 2 ^ 31) mod 2 ^ 32 - 2 ^ 31"

text \<open>
  How the program can stop: a failed \<^verbatim>\<open>CCASSERT\<close> (taken with assertions
  compiled in), or a read or write outside every live object.
\<close>

datatype fault = AssertionFailure | InvalidAccess

subsection \<open>Build configuration\<close>

text \<open>
  The two preprocessor symbols the file tests. \<^verbatim>\<open>CC_MEMORY_TRACKER\<close> switches the
  canary and the tracker on (and makes \<^verbatim>\<open>MEM_CHECKTAG_SIZE\<close> 4 instead of 0);
  \<^verbatim>\<open>AllocBytesAligned\<close> tests \<^verbatim>\<open>COCOS_MEMORY_TRACKER\<close> instead. The guard
  functions are declared under \<^verbatim>\<open>CC_MEMORY_TRACKER\<close> only, so the file compiles in
  three of the four configurations (not with the second symbol alone).
\<close>

record config =
  CC_MEMORY_TRACKER :: bool
  COCOS_MEMORY_TRACKER :: bool

definition MEM_CHECKTAG_SIZE :: "config \<Rightarrow> size_t" where
  "MEM_CHECKTAG_SIZE cfg = (if CC_MEMORY_TRACKER cfg then 4 else 0)"

definition MEM_CHECKTAG :: "32 word" where
  "MEM_CHECKTAG = 0x20170719"

subsection \<open>Memory and the backing allocator\<close>

text \<open>
  The live blocks of the backing allocator, by base address. A block is its bytes: the
  length of the list is what \<^verbatim>\<open>je_malloc_usable_size\<close> reports for it.
\<close>

type_synonym heap = "addr \<rightharpoonup> byte list"

text \<open>
  jemalloc reports a usable size of 0 for the null pointer; so does the model for every
  address that names no live block (where the library's behaviour is undefined), and the
  access that follows finds no block there.
\<close>

definition je_malloc_usable_size :: "heap \<Rightarrow> addr \<Rightarrow> size_t" where
  "je_malloc_usable_size h ptr = (case h ptr of None \<Rightarrow> 0 | Some b \<Rightarrow> of_nat (length b))"

text \<open>
  \<^verbatim>\<open>memcpy((char*)ptr + off, data, n)\<close> and the read of \<open>n\<close> bytes at
  \<^verbatim>\<open>(char*)ptr + off\<close>. The offset is a \<^verbatim>\<open>size_t\<close>: one that wrapped below
  zero is far beyond the block.
\<close>

definition store_bytes :: "heap \<Rightarrow> addr \<Rightarrow> size_t \<Rightarrow> byte list \<Rightarrow> fault + heap" where
  "store_bytes h ptr off data =
     (case h ptr of
        None \<Rightarrow> Inl InvalidAccess
      | Some b \<Rightarrow>
          if unat off + length data \<le> length b
          then Inr (h(ptr \<mapsto> take (unat off) b @ data @ drop (unat off + length data) b))
          else Inl InvalidAccess)"

definition load_bytes :: "heap \<Rightarrow> addr \<Rightarrow> size_t \<Rightarrow> size_t \<Rightarrow> fault + byte list" where
  "load_bytes h ptr off n =
     (case h ptr of
        None \<Rightarrow> Inl InvalidAccess
      | Some b \<Rightarrow>
          if unat off + unat n \<le> length b
          then Inr (take (unat n) (drop (unat off) b))
          else Inl InvalidAccess)"

text \<open>The four bytes of a \<^verbatim>\<open>uint\<close> in memory (little-endian), and back.\<close>

definition uint_bytes :: "32 word \<Rightarrow> byte list" where
  "uint_bytes w = [ucast w, ucast (drop_bit 8 w), ucast (drop_bit 16 w), ucast (drop_bit 24 w)]"

fun bytes_uint :: "byte list \<Rightarrow> 32 word" where
  "bytes_uint [b0, b1, b2, b3] =
     ucast b0 OR push_bit 8 (ucast b1) OR push_bit 16 (ucast b2) OR push_bit 24 (ucast b3)"
| "bytes_uint bs = 0"

text \<open>
  The allocator's answer to one allocation request: \<open>None\<close> when it cannot satisfy it,
  otherwise the address of the new block and the bytes the block holds when handed out
  (uninitialised memory: any bytes; their number is the usable size).
\<close>

type_synonym je_answer = "(addr \<times> byte list) option"

definition je_malloc :: "je_answer \<Rightarrow> size_t \<Rightarrow> heap \<Rightarrow> addr \<times> heap" where
  "je_malloc ans n h = (case ans of None \<Rightarrow> (nullptr, h) | Some (p, b) \<Rightarrow> (p, h(p \<mapsto> b)))"

definition je_aligned_alloc :: "je_answer \<Rightarrow> size_t \<Rightarrow> size_t \<Rightarrow> heap \<Rightarrow> addr \<times> heap" where
  "je_aligned_alloc ans align n h =
     (case ans of None \<Rightarrow> (nullptr, h) | Some (p, b) \<Rightarrow> (p, h(p \<mapsto> b)))"

text \<open>
  What the allocator promises of an answer to a request of \<open>n\<close> bytes on heap \<open>h\<close>:
  a block that is not null, not live yet, and of at least \<open>n\<close> usable bytes.
\<close>

definition je_answer_ok :: "heap \<Rightarrow> size_t \<Rightarrow> je_answer \<Rightarrow> bool" where
  "je_answer_ok h n ans =
     (case ans of
        None \<Rightarrow> True
      | Some (p, b) \<Rightarrow> p \<noteq> nullptr \<and> h p = None \<and> unat n \<le> length b \<and> length b < 2 ^ 64)"

definition je_free :: "addr \<Rightarrow> heap \<Rightarrow> fault + heap" where
  "je_free ptr h =
     (if ptr = nullptr then Inr h
      else case h ptr of None \<Rightarrow> Inl InvalidAccess | Some b \<Rightarrow> Inr (h(ptr := None)))"

text \<open>
  \<^verbatim>\<open>je_realloc(ptr, n)\<close>: an allocation for a null \<open>ptr\<close>, a release for
  \<open>n = 0\<close>; otherwise the block moves to the answer, keeping its content up to the
  smaller size, or stays as it is when the allocator cannot satisfy the request.
\<close>

definition je_realloc :: "je_answer \<Rightarrow> addr \<Rightarrow> size_t \<Rightarrow> heap \<Rightarrow> fault + addr \<times> heap" where
  "je_realloc ans ptr n h =
     (if ptr = nullptr then Inr (je_malloc ans n h)
      else case h ptr of
        None \<Rightarrow> Inl InvalidAccess
      | Some old \<Rightarrow>
          if n = 0 then Inr (nullptr, h(ptr := None))
          else
            (case ans of
               None \<Rightarrow> Inr (nullptr, h)
             | Some (p, b) \<Rightarrow>
                 Inr (p, (h(ptr := None))
                           (p \<mapsto> take (unat n) old @ drop (min (unat n) (length old)) b))))"

subsection \<open>The allocation tracker\<close>

record callsite =
  cs_file :: string
  cs_line :: int
  cs_func :: string

record alloc_record =
  rec_size :: size_t
  rec_site :: callsite

type_synonym MemTracker = "addr \<rightharpoonup> alloc_record"

text \<open>
  Modelled from the spec: \<^verbatim>\<open>MemTracker::RecordAlloc\<close> (MemTracker.h is not among the
  sources). The ledger is keyed by allocation address and records the size and the call
  site; \<^verbatim>\<open>record_alloc(address, size, file, line, function)\<close> inserts the record.
\<close>

definition RecordAlloc :: "MemTracker \<Rightarrow> addr \<Rightarrow> size_t \<Rightarrow> callsite \<Rightarrow> MemTracker" where
  "RecordAlloc t ptr count cs = t(ptr \<mapsto> \<lparr>rec_size = count, rec_site = cs\<rparr>)"

text \<open>
  Modelled from the spec: \<^verbatim>\<open>MemTracker::RecordFree\<close> (MemTracker.h is not among the
  sources); \<^verbatim>\<open>record_free(address)\<close> removes the record of the address.
\<close>

definition RecordFree :: "MemTracker \<Rightarrow> addr \<Rightarrow> MemTracker" where
  "RecordFree t ptr = t(ptr := None)"

text \<open>The state the facade works on: the allocator's blocks and the tracker's ledger.\<close>

record state =
  heap :: heap
  tracker :: MemTracker

subsection \<open>The overflow guard\<close>

definition CheckOverflowAlloc :: "heap \<Rightarrow> addr \<Rightarrow> fault + heap" where
  "CheckOverflowAlloc h ptr =
     (let sz = je_malloc_usable_size h ptr;
          p = sz - 4;
          tag = MEM_CHECKTAG
      in store_bytes h ptr p (uint_bytes tag))"

definition CheckOverflowFree :: "heap \<Rightarrow> addr \<Rightarrow> fault + unit" where
  "CheckOverflowFree h ptr =
     (let sz = je_malloc_usable_size h ptr;
          p = sz - 4
      in case load_bytes h ptr p 4 of
           Inl e \<Rightarrow> Inl e
         | Inr bs \<Rightarrow> if bytes_uint bs = MEM_CHECKTAG then Inr () else Inl AssertionFailure)"

subsection \<open>The facade\<close>

definition AllocBytes :: "config \<Rightarrow> je_answer \<Rightarrow> size_t \<Rightarrow> callsite \<Rightarrow> state \<Rightarrow> fault + addr \<times> state" where
  "AllocBytes cfg ans count cs s =
     (let (ptr, h) = je_malloc ans (count + MEM_CHECKTAG_SIZE cfg) (heap s) in
      if CC_MEMORY_TRACKER cfg then
        (case CheckOverflowAlloc h ptr of
           Inl e \<Rightarrow> Inl e
         | Inr h' \<Rightarrow> Inr (ptr, \<lparr>heap = h', tracker = RecordAlloc (tracker s) ptr count cs\<rparr>))
      else Inr (ptr, s\<lparr>heap := h\<rparr>))"

definition ReallocBytes ::
  "config \<Rightarrow> je_answer \<Rightarrow> addr \<Rightarrow> size_t \<Rightarrow> callsite \<Rightarrow> state \<Rightarrow> fault + addr \<times> state" where
  "ReallocBytes cfg ans ptr count cs s =
     (if CC_MEMORY_TRACKER cfg then
        if ptr \<noteq> nullptr then
          if count = 0 then
            (case CheckOverflowFree (heap s) ptr of
               Inl e \<Rightarrow> Inl e
             | Inr _ \<Rightarrow>
                 (case je_free ptr (heap s) of
                    Inl e \<Rightarrow> Inl e
                  | Inr h' \<Rightarrow> Inr (nullptr, \<lparr>heap = h', tracker = RecordFree (tracker s) ptr\<rparr>)))
          else
            (let oldsz = je_malloc_usable_size (heap s) ptr - MEM_CHECKTAG_SIZE cfg;
                 oldsz = (if oldsz > count then count else oldsz);
                 (nptr, h1) = je_malloc ans (count + MEM_CHECKTAG_SIZE cfg) (heap s)
             in case load_bytes h1 ptr 0 oldsz of
                  Inl e \<Rightarrow> Inl e
                | Inr bs \<Rightarrow>
             (case store_bytes h1 nptr 0 bs of
                  Inl e \<Rightarrow> Inl e
                | Inr h2 \<Rightarrow>
             (case CheckOverflowAlloc h2 nptr of
                  Inl e \<Rightarrow> Inl e
                | Inr h3 \<Rightarrow>
             (let t1 = RecordAlloc (tracker s) nptr count cs
              in case CheckOverflowFree h3 ptr of
                  Inl e \<Rightarrow> Inl e
                | Inr _ \<Rightarrow>
             (let t2 = RecordFree t1 ptr
              in case je_free ptr h3 of
                  Inl e \<Rightarrow> Inl e
                | Inr h4 \<Rightarrow> Inr (nptr, \<lparr>heap = h4, tracker = t2\<rparr>))))))
        else
          if count \<noteq> 0 then
            (let (ptr, h) = je_malloc ans (count + MEM_CHECKTAG_SIZE cfg) (heap s) in
             case CheckOverflowAlloc h ptr of
               Inl e \<Rightarrow> Inl e
             | Inr h' \<Rightarrow> Inr (ptr, \<lparr>heap = h', tracker = RecordAlloc (tracker s) ptr count cs\<rparr>))
          else Inr (nullptr, s)
      else
        (case je_realloc ans ptr count (heap s) of
           Inl e \<Rightarrow> Inl e
         | Inr (p, h) \<Rightarrow> Inr (p, s\<lparr>heap := h\<rparr>)))"

definition AllocBytesAligned ::
  "config \<Rightarrow> je_answer \<Rightarrow> size_t \<Rightarrow> size_t \<Rightarrow> callsite \<Rightarrow> state \<Rightarrow> fault + addr \<times> state" where
  "AllocBytesAligned cfg ans align count cs s =
     (let (ptr, h) = je_aligned_alloc ans align (count + MEM_CHECKTAG_SIZE cfg) (heap s) in
      if COCOS_MEMORY_TRACKER cfg then
        (case CheckOverflowAlloc h ptr of
           Inl e \<Rightarrow> Inl e
         | Inr h' \<Rightarrow> Inr (ptr, \<lparr>heap = h', tracker = RecordAlloc (tracker s) ptr count cs\<rparr>))
      else Inr (ptr, s\<lparr>heap := h\<rparr>))"

definition DeallocBytes :: "config \<Rightarrow> addr \<Rightarrow> state \<Rightarrow> fault + state" where
  "DeallocBytes cfg ptr s =
     (if ptr = nullptr then Inr s
      else if CC_MEMORY_TRACKER cfg then
        (case CheckOverflowFree (heap s) ptr of
           Inl e \<Rightarrow> Inl e
         | Inr _ \<Rightarrow>
             (case je_free ptr (heap s) of
                Inl e \<Rightarrow> Inl e
              | Inr h' \<Rightarrow> Inr \<lparr>heap = h', tracker = RecordFree (tracker s) ptr\<rparr>))
      else
        (case je_free ptr (heap s) of
           Inl e \<Rightarrow> Inl e
         | Inr h' \<Rightarrow> Inr (s\<lparr>heap := h'\<rparr>)))"

text \<open>
  The caller's own write of \<open>data\<close> to \<^verbatim>\<open>ptr[0 .. length data)\<close>, as in
  \<^verbatim>\<open>memset(ptr, 0xAB, n)\<close>.
\<close>

definition caller_write :: "addr \<Rightarrow> byte list \<Rightarrow> state \<Rightarrow> fault + state" where
  "caller_write ptr data s =
     (case store_bytes (heap s) ptr 0 data of Inl e \<Rightarrow> Inl e | Inr h \<Rightarrow> Inr (s\<lparr>heap := h\<rparr>))"

subsection \<open>\<^verbatim>\<open>DumpStats\<close>\<close>

text \<open>
  The caller's array is a list of characters; \<^verbatim>\<open>jd->buf\<close> is an index into it.
  \<^verbatim>\<open>memcpy(dst + off, src, n)\<close> with the \<^verbatim>\<open>int\<close> \<open>n\<close> converted to
  \<^verbatim>\<open>size_t\<close>: a negative \<open>n\<close> becomes a count beyond every object.
\<close>

record JeDumpData =
  jd_buf :: int
  jd_size :: int

definition memcpy_arr :: "string \<Rightarrow> int \<Rightarrow> string \<Rightarrow> int \<Rightarrow> fault + string" where
  "memcpy_arr mem off src n =
     (if n < 0 \<or> int (length src) < n \<or> off < 0 \<or> int (length mem) < off + n
      then Inl InvalidAccess
      else Inr (take (nat off) mem @ take (nat n) src @ drop (nat (off + n)) mem))"

text \<open>A message is the characters of the C string before its terminator.\<close>

definition JeStatsPrint :: "JeDumpData \<times> string \<Rightarrow> string \<Rightarrow> fault + JeDumpData \<times> string" where
  "JeStatsPrint param msg =
     (let (jd, mem) = param in
      if jd_size jd = 0 then Inr (jd, mem)
      else
        let len = c_int (int (length msg));
            len = (if len > jd_size jd then jd_size jd else len)
        in case memcpy_arr mem (jd_buf jd) msg len of
             Inl e \<Rightarrow> Inl e
           | Inr mem1 \<Rightarrow>
        (case memcpy_arr mem1 (jd_buf jd + len) [CHR 0x00] 1 of
             Inl e \<Rightarrow> Inl e
           | Inr mem2 \<Rightarrow>
               Inr (\<lparr>jd_buf = jd_buf jd + len, jd_size = c_int (jd_size jd - len)\<rparr>, mem2)))"

text \<open>
  \<^verbatim>\<open>je_malloc_stats_print(write_cb, cbopaque, opts)\<close> emits its report as a
  sequence of messages, each passed to the callback.
\<close>

fun je_malloc_stats_print :: "('c \<Rightarrow> string \<Rightarrow> fault + 'c) \<Rightarrow> 'c \<Rightarrow> string list \<Rightarrow> fault + 'c" where
  "je_malloc_stats_print write_cb c [] = Inr c"
| "je_malloc_stats_print write_cb c (msg # msgs) =
     (case write_cb c msg of
        Inl e \<Rightarrow> Inl e
      | Inr c' \<Rightarrow> je_malloc_stats_print write_cb c' msgs)"

definition DumpStats :: "string list \<Rightarrow> string \<Rightarrow> int \<Rightarrow> fault + string" where
  "DumpStats report mem bufsize =
     (let jd = \<lparr>jd_buf = 0, jd_size = c_int (bufsize - 1)\<rparr> in
      case je_malloc_stats_print JeStatsPrint (jd, mem) report of
        Inl e \<Rightarrow> Inl e
      | Inr (jd', mem') \<Rightarrow> Inr mem')"

subsection \<open>Formatting: \<^verbatim>\<open>%d\<close>\<close>

definition digit_char :: "nat \<Rightarrow> char" where
  "digit_char d = ''0123456789'' ! d"

fun dec_nat :: "nat \<Rightarrow> string" where
  "dec_nat n = (if n < 10 then [digit_char n] else dec_nat (n div 10) @ [digit_char (n mod 10)])"

declare dec_nat.simps [simp del]

definition dec_int :: "int \<Rightarrow> string" where
  "dec_int i = (if i < 0 then CHR ''-'' # dec_nat (nat (- i)) else dec_nat (nat i))"

text \<open>
  \<^verbatim>\<open>sprintf(buf, ...)\<close> into \<^verbatim>\<open>char buf[cap]\<close>: the text and its
  terminator must fit, otherwise the write leaves the array.
\<close>

definition sprintf_into :: "nat \<Rightarrow> string \<Rightarrow> fault + string" where
  "sprintf_into cap s = (if length s + 1 \<le> cap then Inr s else Inl InvalidAccess)"

subsection \<open>\<^verbatim>\<open>TrimAlloc\<close>\<close>

text \<open>
  \<^verbatim>\<open>je_mallctl(name, oldp, oldlenp, newp, newlen)\<close> is the allocator's control
  interface. Its reply to a name is a return code and, when it succeeds on a read, the
  value it stores through \<^verbatim>\<open>oldp\<close>. What \<^verbatim>\<open>TrimAlloc\<close> does to the
  outside is the list of its control calls and of its output.
\<close>

type_synonym mallctl = "string \<Rightarrow> int \<times> int option"

datatype event = Mallctl string | Stdout string

definition TrimAlloc :: "mallctl \<Rightarrow> fault + event list" where
  "TrimAlloc je_mallctl =
     (let narenas = (0::int);
          narenas = (case snd (je_mallctl ''arenas.narenas'') of
                       None \<Rightarrow> narenas
                     | Some v \<Rightarrow> c_int v)
      in case sprintf_into 24 (''arena.'' @ dec_int narenas @ ''.purge'') of
           Inl e \<Rightarrow> Inl e
         | Inr buf \<Rightarrow>
             Inr [Mallctl ''arenas.narenas'',
                  Stdout (''jemalloc trim: '' @ buf @ [CHR 0x0A]),
                  Mallctl buf])"

subsection \<open>The allocator's reading of a purge command\<close>

text \<open>
  The allocator's side of the control interface, as the jemalloc manual gives it (the
  library is not part of the repository): the name \<^verbatim>\<open>arena.<i>.purge\<close>, with
  \<open>i\<close> in decimal digits, purges arena \<open>i\<close>, or all arenas if \<open>i\<close> equals
  \<^verbatim>\<open>arenas.narenas\<close>; any other name or index is refused. The digits are read here
  character by character, independently of the formatting above.
\<close>

definition digit_value :: "char \<Rightarrow> nat option" where
  "digit_value c = map_of (zip ''0123456789'' [0, 1, 2, 3, 4, 5, 6, 7, 8, 9]) c"

fun parse_digits :: "nat \<Rightarrow> string \<Rightarrow> nat option" where
  "parse_digits acc [] = Some acc"
| "parse_digits acc (c # cs) =
     (case digit_value c of None \<Rightarrow> None | Some d \<Rightarrow> parse_digits (10 * acc + d) cs)"

definition parse_nat :: "string \<Rightarrow> nat option" where
  "parse_nat s = (if s = [] then None else parse_digits 0 s)"

definition arena_purge_index :: "string \<Rightarrow> nat option" where
  "arena_purge_index name =
     (if 12 \<le> length name \<and> take 6 name = ''arena.'' \<and> drop (length name - 6) name = ''.purge''
      then parse_nat (take (length name - 12) (drop 6 name))
      else None)"

text \<open>
  The arenas that a control command purges in an allocator with \<open>narenas\<close> arenas
  (numbered from 0); \<open>None\<close> when the allocator refuses the command.
\<close>

definition purged_arenas :: "nat \<Rightarrow> string \<Rightarrow> nat set option" where
  "purged_arenas narenas name =
     (case arena_purge_index name of
        None \<Rightarrow> None
      | Some i \<Rightarrow>
          if i = narenas then Some {0..<narenas}
          else if i < narenas then Some {i}
          else None)"

text \<open>The names of the control calls among the events, in order.\<close>

fun commands :: "event list \<Rightarrow> string list" where
  "commands [] = []"
| "commands (Mallctl name # evs) = name # commands evs"
| "commands (Stdout s # evs) = commands evs"

text \<open>
  Two control interfaces: one that answers the arena-count query with 4, and one whose
  every call fails (return code \<^verbatim>\<open>EFAULT\<close>, nothing stored).
\<close>

definition four_arenas :: mallctl where
  "four_arenas name = (if name = ''arenas.narenas'' then (0, Some 4) else (0, None))"

definition query_fails :: mallctl where
  "query_fails name = (14, None)"

subsection \<open>Sequences of facade calls\<close>

text \<open>
  A caller's sequence of calls, each with the allocator's answer to the allocation it
  makes (if any) and its call site; the pointers the calls return are dropped, the caller
  names the addresses in its later calls.
\<close>

datatype request =
  Allocate size_t
| AllocateAligned size_t size_t
| Reallocate addr size_t
| Deallocate addr

fun perform :: "config \<Rightarrow> request \<Rightarrow> je_answer \<Rightarrow> callsite \<Rightarrow> state \<Rightarrow> fault + state" where
  "perform cfg (Allocate n) ans cs s =
     (case AllocBytes cfg ans n cs s of Inl e \<Rightarrow> Inl e | Inr (p, s') \<Rightarrow> Inr s')"
| "perform cfg (AllocateAligned a n) ans cs s =
     (case AllocBytesAligned cfg ans a n cs s of Inl e \<Rightarrow> Inl e | Inr (p, s') \<Rightarrow> Inr s')"
| "perform cfg (Reallocate ptr n) ans cs s =
     (case ReallocBytes cfg ans ptr n cs s of Inl e \<Rightarrow> Inl e | Inr (p, s') \<Rightarrow> Inr s')"
| "perform cfg (Deallocate ptr) ans cs s = DeallocBytes cfg ptr s"

fun run :: "config \<Rightarrow> (request \<times> je_answer \<times> callsite) list \<Rightarrow> state \<Rightarrow> fault + state" where
  "run cfg [] s = Inr s"
| "run cfg ((r, ans, cs) # rest) s =
     (case perform cfg r ans cs s of Inl e \<Rightarrow> Inl e | Inr s' \<Rightarrow> run cfg rest s')"

text \<open>
  The scenario of the overflow test: allocate \<open>count\<close> bytes, let the caller write
  \<open>data\<close> from the start of the block, release the block.
\<close>

definition alloc_write_free ::
  "config \<Rightarrow> je_answer \<Rightarrow> size_t \<Rightarrow> byte list \<Rightarrow> callsite \<Rightarrow> state \<Rightarrow> fault + state" where
  "alloc_write_free cfg ans count data cs s =
     (case AllocBytes cfg ans count cs s of
        Inl e \<Rightarrow> Inl e
      | Inr (p, s1) \<Rightarrow>
          (case caller_write p data s1 of
             Inl e \<Rightarrow> Inl e
           | Inr s2 \<Rightarrow> DeallocBytes cfg p s2))"

text \<open>
  The ledger is exact when it has a record for the address of every live block and for
  no other address.
\<close>

definition ledger_exact :: "state \<Rightarrow> bool" where
  "ledger_exact s = (dom (tracker s) = dom (heap s))"

fun aligned_request :: "request \<Rightarrow> bool" where
  "aligned_request (AllocateAligned a n) = True"
| "aligned_request r = False"

subsection \<open>Concrete inputs\<close>

text \<open>
  The build with tracking switched on by \<^verbatim>\<open>CC_MEMORY_TRACKER\<close>, the build without
  it, a fresh process, a call site, and \<open>n\<close> bytes of uninitialised memory.
\<close>

definition tracked :: config where
  "tracked = \<lparr>CC_MEMORY_TRACKER = True, COCOS_MEMORY_TRACKER = False\<rparr>"

definition untracked :: config where
  "untracked = \<lparr>CC_MEMORY_TRACKER = False, COCOS_MEMORY_TRACKER = False\<rparr>"

definition fresh :: state where
  "fresh = \<lparr>heap = Map.empty, tracker = Map.empty\<rparr>"

definition site :: callsite where
  "site = \<lparr>cs_file = ''main.cpp'', cs_line = 42, cs_func = ''main''\<rparr>"

definition junk :: "nat \<Rightarrow> byte list" where
  "junk n = replicate n 0xCD"

section \<open>Properties\<close>

subsection \<open>Decimal text of a C int\<close>

lemma c_int_range: "- (2 ^ 31) \<le> c_int x \<and> c_int x < 2 ^ 31"
proof -
  have "0 \<le> (x + 2 ^ 31) mod (2 ^ 32 :: int)" "(x + 2 ^ 31) mod (2 ^ 32 :: int) < 2 ^ 32"
    by simp_all
  then show ?thesis
    by (simp add: c_int_def)
qed

lemma c_int_id: "- (2 ^ 31) \<le> x \<Longrightarrow> x < 2 ^ 31 \<Longrightarrow> c_int x = x"
  by (simp add: c_int_def)

lemma length_dec_nat: "0 < k \<Longrightarrow> n < 10 ^ k \<Longrightarrow> length (dec_nat n) \<le> k"
proof (induction n arbitrary: k rule: dec_nat.induct)
  case (1 n)
  show ?case
  proof (cases "n < 10")
    case True
    with "1.prems" show ?thesis
      by (simp add: dec_nat.simps [of n])
  next
    case False
    with "1.prems" have k2: "1 < k"
      by (cases "k = 1") auto
    then obtain j where j: "k = Suc j" "0 < j"
      by (cases k) auto
    from "1.prems" j have "n div 10 < 10 ^ j"
      by (simp add: less_mult_imp_div_less mult.commute)
    with "1.IH" [OF False \<open>0 < j\<close>] have "length (dec_nat (n div 10)) \<le> j" .
    with False j show ?thesis
      by (simp add: dec_nat.simps [of n])
  qed
qed

lemma length_dec_int: "- (2 ^ 31) \<le> i \<Longrightarrow> i < 2 ^ 31 \<Longrightarrow> length (dec_int i) \<le> 11"
proof (cases "i < 0")
  case True
  assume "- (2 ^ 31) \<le> i"
  with True have "nat (- i) < 10 ^ 10"
    by simp
  then have "length (dec_nat (nat (- i))) \<le> 10"
    by (rule length_dec_nat [rotated]) simp
  with True show ?thesis
    by (simp add: dec_int_def)
next
  case False
  assume "i < 2 ^ 31"
  with False have "nat i < 10 ^ 10"
    by simp
  then have "length (dec_nat (nat i)) \<le> 10"
    by (rule length_dec_nat [rotated]) simp
  with False show ?thesis
    by (simp add: dec_int_def)
qed

text \<open>
  C10. In \<^verbatim>\<open>TrimAlloc\<close>, whatever the control interface replies to the arena-count
  query (a failure, which leaves \<^verbatim>\<open>narenas\<close> at 0, or any value of an
  \<^verbatim>\<open>int\<close>), the text \<^verbatim>\<open>arena.<narenas>.purge\<close> and its terminator fit the
  24-byte buffer: the \<^verbatim>\<open>sprintf\<close> never leaves it.
\<close>

theorem TrimAlloc_buffer_fits:
  "length (''arena.'' @ dec_int (case snd (je_mallctl ''arenas.narenas'') of None \<Rightarrow> 0 | Some v \<Rightarrow> c_int v)
      @ ''.purge'') + 1 \<le> 24
   \<and> TrimAlloc je_mallctl \<noteq> Inl InvalidAccess"
proof -
  let ?n = "case snd (je_mallctl ''arenas.narenas'') of None \<Rightarrow> 0 | Some v \<Rightarrow> c_int v"
  have "- (2 ^ 31) \<le> ?n \<and> ?n < 2 ^ 31"
    using c_int_range by (simp split: option.split)
  then have "length (dec_int ?n) \<le> 11"
    by (simp add: length_dec_int)
  then have fits: "length (''arena.'' @ dec_int ?n @ ''.purge'') + 1 \<le> 24"
    by simp
  then have "TrimAlloc je_mallctl \<noteq> Inl InvalidAccess"
    by (simp add: TrimAlloc_def sprintf_into_def Let_def)
  with fits show ?thesis
    by simp
qed

subsection \<open>The canary in memory\<close>

lemma uint_bytes_tag: "uint_bytes MEM_CHECKTAG = [0x19, 0x07, 0x17, 0x20]"
  by (simp add: uint_bytes_def MEM_CHECKTAG_def)

lemma bytes_uint_tag: "bytes_uint (uint_bytes MEM_CHECKTAG) = MEM_CHECKTAG"
  by (simp add: uint_bytes_tag) (simp add: MEM_CHECKTAG_def)

lemma byte0: "ucast (bytes_uint [b0, b1, b2, b3]) = b0"
  by (rule bit_word_eqI) (auto simp add: bit_simps)

lemma byte1: "ucast (drop_bit 8 (bytes_uint [b0, b1, b2, b3])) = b1"
  by (rule bit_word_eqI) (auto simp add: bit_simps dest: bit_imp_le_length)

lemma byte2: "ucast (drop_bit 16 (bytes_uint [b0, b1, b2, b3])) = b2"
  by (rule bit_word_eqI) (auto simp add: bit_simps dest: bit_imp_le_length)

lemma byte3: "ucast (drop_bit 24 (bytes_uint [b0, b1, b2, b3])) = b3"
  by (rule bit_word_eqI) (auto simp add: bit_simps dest: bit_imp_le_length)

lemma length4: "length bs = 4 \<Longrightarrow> \<exists>b0 b1 b2 b3. bs = [b0, b1, b2, b3]"
  by (cases bs; simp; rename_tac l1; case_tac l1; simp; rename_tac l2; case_tac l2; simp;
      rename_tac l3; case_tac l3; simp)

lemma uint_bytes_uint: "length bs = 4 \<Longrightarrow> uint_bytes (bytes_uint bs) = bs"
proof -
  assume "length bs = 4"
  then obtain b0 b1 b2 b3 where bs: "bs = [b0, b1, b2, b3]"
    using length4 by blast
  show ?thesis
    unfolding bs uint_bytes_def by (simp only: byte0 byte1 byte2 byte3)
qed

text \<open>The check compares the four stored bytes with the bytes of the tag.\<close>

lemma canary_iff:
  "length bs = 4 \<Longrightarrow> (bytes_uint bs = MEM_CHECKTAG) = (bs = uint_bytes MEM_CHECKTAG)"
  using uint_bytes_uint bytes_uint_tag by metis

subsection \<open>The guard on a live block\<close>

lemma usable_live:
  "h p = Some b \<Longrightarrow> length b < 2 ^ 64 \<Longrightarrow> unat (je_malloc_usable_size h p) = length b"
  by (simp add: je_malloc_usable_size_def unat_of_nat)

lemma usable_sub4:
  assumes "h p = Some b" "4 \<le> length b" "length b < 2 ^ 64"
  shows "unat (je_malloc_usable_size h p - 4) = length b - 4"
proof -
  have u: "unat (je_malloc_usable_size h p) = length b"
    using assms by (simp add: usable_live)
  have "(4 :: size_t) \<le> je_malloc_usable_size h p"
    using assms u by (simp add: word_le_nat_alt)
  then have "unat (je_malloc_usable_size h p - 4) = unat (je_malloc_usable_size h p) - unat (4 :: size_t)"
    by (rule unat_sub)
  with u show ?thesis by simp
qed

lemma CheckOverflowAlloc_live:
  assumes "h p = Some b" "4 \<le> length b" "length b < 2 ^ 64"
  shows "CheckOverflowAlloc h p = Inr (h(p \<mapsto> take (length b - 4) b @ uint_bytes MEM_CHECKTAG))"
  using assms usable_sub4 [of h p b]
  by (simp add: CheckOverflowAlloc_def store_bytes_def Let_def uint_bytes_def)

lemma CheckOverflowAlloc_dead: "h p = None \<Longrightarrow> CheckOverflowAlloc h p = Inl InvalidAccess"
  by (simp add: CheckOverflowAlloc_def store_bytes_def Let_def)

lemma CheckOverflowFree_live:
  assumes "h p = Some b" "4 \<le> length b" "length b < 2 ^ 64"
  shows "CheckOverflowFree h p =
           (if bytes_uint (drop (length b - 4) b) = MEM_CHECKTAG then Inr () else Inl AssertionFailure)"
  using assms usable_sub4 [of h p b]
  by (simp add: CheckOverflowFree_def load_bytes_def Let_def)

lemma CheckOverflowFree_dead: "h p = None \<Longrightarrow> CheckOverflowFree h p = Inl InvalidAccess"
  by (simp add: CheckOverflowFree_def load_bytes_def Let_def)

lemma padded_size:
  "CC_MEMORY_TRACKER cfg \<Longrightarrow> unat count + 4 < 2 ^ 64 \<Longrightarrow> unat (count + MEM_CHECKTAG_SIZE cfg) = unat count + 4"
  using unat_add_lem [of count "4 :: size_t"] by (simp add: MEM_CHECKTAG_SIZE_def)

lemma AllocBytes_tracked:
  assumes "CC_MEMORY_TRACKER cfg" "4 \<le> length b" "length b < 2 ^ 64"
  shows "AllocBytes cfg (Some (p, b)) count cs s =
           Inr (p, \<lparr>heap = (heap s)(p \<mapsto> take (length b - 4) b @ uint_bytes MEM_CHECKTAG),
                    tracker = (tracker s)(p \<mapsto> \<lparr>rec_size = count, rec_site = cs\<rparr>)\<rparr>)"
  using assms CheckOverflowAlloc_live [of "(heap s)(p \<mapsto> b)" p b]
  by (simp add: AllocBytes_def je_malloc_def RecordAlloc_def)

lemma AllocBytes_untracked:
  "\<not> CC_MEMORY_TRACKER cfg \<Longrightarrow>
     AllocBytes cfg ans count cs s =
       (case ans of None \<Rightarrow> Inr (nullptr, s) | Some (p, b) \<Rightarrow> Inr (p, s\<lparr>heap := (heap s)(p \<mapsto> b)\<rparr>))"
  by (simp add: AllocBytes_def je_malloc_def split: option.split)

lemma DeallocBytes_tracked:
  assumes "CC_MEMORY_TRACKER cfg" "ptr \<noteq> nullptr" "heap s ptr = Some b" "4 \<le> length b" "length b < 2 ^ 64"
  shows "DeallocBytes cfg ptr s =
           (if bytes_uint (drop (length b - 4) b) = MEM_CHECKTAG
            then Inr \<lparr>heap = (heap s)(ptr := None), tracker = (tracker s)(ptr := None)\<rparr>
            else Inl AssertionFailure)"
  using assms CheckOverflowFree_live [of "heap s" ptr b]
  by (simp add: DeallocBytes_def je_free_def RecordFree_def)

lemma DeallocBytes_untracked:
  assumes "\<not> CC_MEMORY_TRACKER cfg" "ptr \<noteq> nullptr" "heap s ptr = Some b"
  shows "DeallocBytes cfg ptr s = Inr (s\<lparr>heap := (heap s)(ptr := None)\<rparr>)"
  using assms by (simp add: DeallocBytes_def je_free_def)

text \<open>
  C8. \<^verbatim>\<open>DeallocBytes(nullptr)\<close> does nothing, in every build: the state is
  returned as it was, and no fault is possible. For a pointer that is not null and names a
  live block, the tracked build validates the canary and either stops on the assertion
  (mismatch) or removes the tracker's record and the block; the untracked build removes
  the block. There is no other outcome.
\<close>

theorem DeallocBytes_contract:
  "DeallocBytes cfg nullptr s = Inr s \<and>
   (ptr \<noteq> nullptr \<and> heap s ptr = Some b \<and> (CC_MEMORY_TRACKER cfg \<longrightarrow> 4 \<le> length b \<and> length b < 2 ^ 64) \<longrightarrow>
    DeallocBytes cfg ptr s =
      (if CC_MEMORY_TRACKER cfg then
         if bytes_uint (drop (length b - 4) b) = MEM_CHECKTAG
         then Inr \<lparr>heap = (heap s)(ptr := None), tracker = (tracker s)(ptr := None)\<rparr>
         else Inl AssertionFailure
       else Inr (s\<lparr>heap := (heap s)(ptr := None)\<rparr>)))"
proof (intro conjI impI)
  show "DeallocBytes cfg nullptr s = Inr s"
    by (simp add: DeallocBytes_def)
next
  assume a: "ptr \<noteq> nullptr \<and> heap s ptr = Some b \<and> (CC_MEMORY_TRACKER cfg \<longrightarrow> 4 \<le> length b \<and> length b < 2 ^ 64)"
  show "DeallocBytes cfg ptr s =
      (if CC_MEMORY_TRACKER cfg then
         if bytes_uint (drop (length b - 4) b) = MEM_CHECKTAG
         then Inr \<lparr>heap = (heap s)(ptr := None), tracker = (tracker s)(ptr := None)\<rparr>
         else Inl AssertionFailure
       else Inr (s\<lparr>heap := (heap s)(ptr := None)\<rparr>))"
  proof (cases "CC_MEMORY_TRACKER cfg")
    case True
    with a show ?thesis
      by (simp add: DeallocBytes_tracked [of cfg ptr s b])
  next
    case False
    with a show ?thesis
      by (simp add: DeallocBytes_untracked [of cfg ptr s b])
  qed
qed

text \<open>
  Witness for C8: in the tracked build, a block of 112 bytes at address 64 whose last
  four bytes are the tag is released, and a block whose last byte was overwritten stops
  on the assertion; freeing the null pointer leaves the state as it is.
\<close>

theorem DeallocBytes_contract_witness:
  "DeallocBytes tracked nullptr \<lparr>heap = [64 \<mapsto> junk 108 @ [0x19, 0x07, 0x17, 0x20]], tracker = [64 \<mapsto> \<lparr>rec_size = 100, rec_site = site\<rparr>]\<rparr>
     = Inr \<lparr>heap = [64 \<mapsto> junk 108 @ [0x19, 0x07, 0x17, 0x20]], tracker = [64 \<mapsto> \<lparr>rec_size = 100, rec_site = site\<rparr>]\<rparr> \<and>
   DeallocBytes tracked 64 \<lparr>heap = [64 \<mapsto> junk 108 @ [0x19, 0x07, 0x17, 0x20]], tracker = [64 \<mapsto> \<lparr>rec_size = 100, rec_site = site\<rparr>]\<rparr>
     = Inr fresh \<and>
   DeallocBytes tracked 64 \<lparr>heap = [64 \<mapsto> junk 108 @ [0x19, 0x07, 0x17, 0x21]], tracker = [64 \<mapsto> \<lparr>rec_size = 100, rec_site = site\<rparr>]\<rparr>
     = Inl AssertionFailure"
  using DeallocBytes_contract [of tracked "\<lparr>heap = [64 \<mapsto> junk 108 @ [0x19, 0x07, 0x17, 0x20]], tracker = [64 \<mapsto> \<lparr>rec_size = 100, rec_site = site\<rparr>]\<rparr>" 64 "junk 108 @ [0x19, 0x07, 0x17, 0x20]"]
        DeallocBytes_contract [of tracked "\<lparr>heap = [64 \<mapsto> junk 108 @ [0x19, 0x07, 0x17, 0x21]], tracker = [64 \<mapsto> \<lparr>rec_size = 100, rec_site = site\<rparr>]\<rparr>" 64 "junk 108 @ [0x19, 0x07, 0x17, 0x21]"]
  by (simp add: tracked_def fresh_def junk_def nullptr_def MEM_CHECKTAG_def)

text \<open>
  C6. In the tracked build \<^verbatim>\<open>ReallocBytes\<close> splits as follows:
  \<^verbatim>\<open>ReallocBytes(nullptr, 0)\<close> returns null and leaves heap and tracker as they
  are; \<^verbatim>\<open>ReallocBytes(nullptr, N)\<close> with \<open>N > 0\<close> is
  \<^verbatim>\<open>AllocBytes(N)\<close> (same pointer, same canary, same record, same faults);
  \<^verbatim>\<open>ReallocBytes(ptr, 0)\<close> with \<open>ptr\<close> not null is
  \<^verbatim>\<open>DeallocBytes(ptr)\<close> followed by returning null, which on a live block checks
  the canary, removes the record and frees the block.
\<close>

theorem ReallocBytes_cases:
  "CC_MEMORY_TRACKER cfg \<longrightarrow>
     ReallocBytes cfg ans nullptr 0 cs s = Inr (nullptr, s) \<and>
     (count \<noteq> 0 \<longrightarrow> ReallocBytes cfg ans nullptr count cs s = AllocBytes cfg ans count cs s) \<and>
     (ptr \<noteq> nullptr \<longrightarrow>
        ReallocBytes cfg ans ptr 0 cs s =
          (case DeallocBytes cfg ptr s of Inl e \<Rightarrow> Inl e | Inr s' \<Rightarrow> Inr (nullptr, s'))) \<and>
     (ptr \<noteq> nullptr \<and> heap s ptr = Some b \<and> 4 \<le> length b \<and> length b < 2 ^ 64 \<longrightarrow>
        ReallocBytes cfg ans ptr 0 cs s =
          (if bytes_uint (drop (length b - 4) b) = MEM_CHECKTAG
           then Inr (nullptr, \<lparr>heap = (heap s)(ptr := None), tracker = (tracker s)(ptr := None)\<rparr>)
           else Inl AssertionFailure))"
proof (intro impI conjI)
  assume t: "CC_MEMORY_TRACKER cfg"
  show "ReallocBytes cfg ans nullptr 0 cs s = Inr (nullptr, s)"
    using t by (simp add: ReallocBytes_def)
  show "ReallocBytes cfg ans nullptr count cs s = AllocBytes cfg ans count cs s" if "count \<noteq> 0"
    using t that by (simp add: ReallocBytes_def AllocBytes_def)
  show free: "ReallocBytes cfg ans ptr 0 cs s =
          (case DeallocBytes cfg ptr s of Inl e \<Rightarrow> Inl e | Inr s' \<Rightarrow> Inr (nullptr, s'))"
    if "ptr \<noteq> nullptr"
    using t that by (simp add: ReallocBytes_def DeallocBytes_def split: sum.split)
  show "ReallocBytes cfg ans ptr 0 cs s =
          (if bytes_uint (drop (length b - 4) b) = MEM_CHECKTAG
           then Inr (nullptr, \<lparr>heap = (heap s)(ptr := None), tracker = (tracker s)(ptr := None)\<rparr>)
           else Inl AssertionFailure)"
    if "ptr \<noteq> nullptr \<and> heap s ptr = Some b \<and> 4 \<le> length b \<and> length b < 2 ^ 64"
    using t that free DeallocBytes_tracked [of cfg ptr s b] by simp
qed

text \<open>
  Witness for C6, in the tracked build on a fresh state and on the state with one block
  of 112 bytes at address 64 (requested size 100).
\<close>

theorem ReallocBytes_cases_witness:
  "ReallocBytes tracked (Some (128, junk 112)) nullptr 0 site
       \<lparr>heap = [64 \<mapsto> junk 108 @ [0x19, 0x07, 0x17, 0x20]], tracker = [64 \<mapsto> \<lparr>rec_size = 100, rec_site = site\<rparr>]\<rparr>
     = Inr (nullptr, \<lparr>heap = [64 \<mapsto> junk 108 @ [0x19, 0x07, 0x17, 0x20]], tracker = [64 \<mapsto> \<lparr>rec_size = 100, rec_site = site\<rparr>]\<rparr>) \<and>
   ReallocBytes tracked (Some (128, junk 112)) nullptr 100 site
       \<lparr>heap = [64 \<mapsto> junk 108 @ [0x19, 0x07, 0x17, 0x20]], tracker = [64 \<mapsto> \<lparr>rec_size = 100, rec_site = site\<rparr>]\<rparr>
     = AllocBytes tracked (Some (128, junk 112)) 100 site
       \<lparr>heap = [64 \<mapsto> junk 108 @ [0x19, 0x07, 0x17, 0x20]], tracker = [64 \<mapsto> \<lparr>rec_size = 100, rec_site = site\<rparr>]\<rparr> \<and>
   ReallocBytes tracked (Some (128, junk 112)) 64 0 site
       \<lparr>heap = [64 \<mapsto> junk 108 @ [0x19, 0x07, 0x17, 0x20]], tracker = [64 \<mapsto> \<lparr>rec_size = 100, rec_site = site\<rparr>]\<rparr>
     = Inr (nullptr, fresh)"
proof -
  let ?b = "junk 108 @ [0x19, 0x07, 0x17, 0x20]"
  let ?s = "\<lparr>heap = [64 \<mapsto> ?b], tracker = [64 \<mapsto> \<lparr>rec_size = 100, rec_site = site\<rparr>]\<rparr>"
  have t: "CC_MEMORY_TRACKER tracked"
    by (simp add: tracked_def)
  note c = ReallocBytes_cases [of tracked "Some (128, junk 112)" site ?s 100 64 ?b, THEN mp, OF t]
  have c1: "ReallocBytes tracked (Some (128, junk 112)) nullptr 0 site ?s = Inr (nullptr, ?s)"
    using c by (rule conjunct1)
  have c2: "ReallocBytes tracked (Some (128, junk 112)) nullptr 100 site ?s
              = AllocBytes tracked (Some (128, junk 112)) 100 site ?s"
    using c [THEN conjunct2, THEN conjunct1] by simp
  have c4: "ReallocBytes tracked (Some (128, junk 112)) 64 0 site ?s = Inr (nullptr, fresh)"
    using c [THEN conjunct2, THEN conjunct2, THEN conjunct2]
    by (simp add: fresh_def junk_def nullptr_def MEM_CHECKTAG_def)
  from c1 c2 c4 show ?thesis
    by (intro conjI)
qed

subsection \<open>Allocation failure\<close>

lemma AllocBytes_tracked_failure:
  "CC_MEMORY_TRACKER cfg \<Longrightarrow> heap s nullptr = None \<Longrightarrow>
     AllocBytes cfg None count cs s = Inl InvalidAccess"
  by (simp add: AllocBytes_def je_malloc_def CheckOverflowAlloc_dead)

lemma ReallocBytes_untracked:
  "\<not> CC_MEMORY_TRACKER cfg \<Longrightarrow>
     ReallocBytes cfg ans ptr count cs s =
       (case je_realloc ans ptr count (heap s) of
          Inl e \<Rightarrow> Inl e
        | Inr (p, h) \<Rightarrow> Inr (p, s\<lparr>heap := h\<rparr>))"
  by (simp add: ReallocBytes_def)

text \<open>
  C4, as the spec states it, fails in the tracked build: when the allocator cannot
  satisfy the request, \<^verbatim>\<open>AllocBytes\<close> passes the null pointer to
  \<^verbatim>\<open>CheckOverflowAlloc\<close>, which writes the tag at \<^verbatim>\<open>(char*)0 + 0 - 4\<close>,
  outside every live block: the call faults instead of returning null.
\<close>

theorem AllocBytes_failure_counterexample:
  "AllocBytes tracked None 100 site fresh = Inl InvalidAccess"
  by (simp add: AllocBytes_def tracked_def fresh_def je_malloc_def CheckOverflowAlloc_dead)

text \<open>
  C4, amended. In the build without tracking, when the allocator cannot satisfy the
  request, \<^verbatim>\<open>AllocBytes\<close> returns null and leaves the state as it is, and so does
  \<^verbatim>\<open>ReallocBytes\<close> for a pointer that is null or names a live block (for a live
  block and a count of 0 the call is a release, which also returns null); the facade
  adds no failure of its own.
\<close>

theorem untracked_failure_is_null:
  "\<not> CC_MEMORY_TRACKER cfg \<longrightarrow>
     AllocBytes cfg None count cs s = Inr (nullptr, s) \<and>
     ((ptr = nullptr \<or> heap s ptr = Some b) \<longrightarrow>
        ReallocBytes cfg None ptr count cs s =
          Inr (nullptr, if ptr \<noteq> nullptr \<and> count = 0 then s\<lparr>heap := (heap s)(ptr := None)\<rparr> else s))"
proof (intro impI conjI)
  assume u: "\<not> CC_MEMORY_TRACKER cfg"
  show "AllocBytes cfg None count cs s = Inr (nullptr, s)"
    using u by (simp add: AllocBytes_untracked)
  show "ReallocBytes cfg None ptr count cs s =
          Inr (nullptr, if ptr \<noteq> nullptr \<and> count = 0 then s\<lparr>heap := (heap s)(ptr := None)\<rparr> else s)"
    if "ptr = nullptr \<or> heap s ptr = Some b"
    using u that by (auto simp add: ReallocBytes_untracked je_realloc_def je_malloc_def)
qed

text \<open>
  Witness for the amended C4: the untracked build, a heap with one live block of 112
  bytes at address 64, a request of 100 bytes that the allocator cannot satisfy.
\<close>

theorem untracked_failure_is_null_witness:
  "AllocBytes untracked None 100 site \<lparr>heap = [64 \<mapsto> junk 112], tracker = Map.empty\<rparr>
     = Inr (nullptr, \<lparr>heap = [64 \<mapsto> junk 112], tracker = Map.empty\<rparr>) \<and>
   ReallocBytes untracked None 64 100 site \<lparr>heap = [64 \<mapsto> junk 112], tracker = Map.empty\<rparr>
     = Inr (nullptr, \<lparr>heap = [64 \<mapsto> junk 112], tracker = Map.empty\<rparr>)"
proof -
  let ?s = "\<lparr>heap = [64 \<mapsto> junk 112], tracker = Map.empty\<rparr>"
  have u: "\<not> CC_MEMORY_TRACKER untracked"
    by (simp add: untracked_def)
  note c = untracked_failure_is_null [of untracked 100 site ?s 64 "junk 112", THEN mp, OF u]
  have c1: "AllocBytes untracked None 100 site ?s = Inr (nullptr, ?s)"
    using c by (rule conjunct1)
  have c2: "ReallocBytes untracked None 64 100 site ?s = Inr (nullptr, ?s)"
    using c [THEN conjunct2] by simp
  from c1 c2 show ?thesis
    by (intro conjI)
qed

subsection \<open>The aligned allocation\<close>

lemma replicate4: "replicate 4 x = [x, x, x, x]"
  by (simp add: numeral_eq_Suc)

lemma junk_no_canary: "bytes_uint (replicate 4 0xCD) \<noteq> MEM_CHECKTAG"
  by (simp add: replicate4 MEM_CHECKTAG_def)

text \<open>
  C1 does not hold of the code. In the build with \<^verbatim>\<open>CC_MEMORY_TRACKER\<close>,
  \<^verbatim>\<open>AllocBytesAligned(16, 100)\<close> asks the allocator for 104 bytes (here it gets a
  block of 112 at address 64) but, its guard testing \<^verbatim>\<open>COCOS_MEMORY_TRACKER\<close>,
  writes no canary and inserts no record; \<^verbatim>\<open>AllocBytes(100)\<close> on the same answer
  does both. Releasing the aligned block then stops on the canary assertion.
\<close>

theorem AllocBytesAligned_skips_guard_and_tracker:
  "AllocBytesAligned tracked (Some (64, junk 112)) 16 100 site fresh
     = Inr (64, \<lparr>heap = [64 \<mapsto> junk 112], tracker = Map.empty\<rparr>) \<and>
   AllocBytes tracked (Some (64, junk 112)) 100 site fresh
     = Inr (64, \<lparr>heap = [64 \<mapsto> junk 108 @ [0x19, 0x07, 0x17, 0x20]],
                tracker = [64 \<mapsto> \<lparr>rec_size = 100, rec_site = site\<rparr>]\<rparr>) \<and>
   DeallocBytes tracked 64 \<lparr>heap = [64 \<mapsto> junk 112], tracker = Map.empty\<rparr> = Inl AssertionFailure"
proof (intro conjI)
  show "AllocBytesAligned tracked (Some (64, junk 112)) 16 100 site fresh
          = Inr (64, \<lparr>heap = [64 \<mapsto> junk 112], tracker = Map.empty\<rparr>)"
    by (simp add: AllocBytesAligned_def je_aligned_alloc_def tracked_def fresh_def)
  have t: "CC_MEMORY_TRACKER tracked"
    by (simp add: tracked_def)
  show "AllocBytes tracked (Some (64, junk 112)) 100 site fresh
          = Inr (64, \<lparr>heap = [64 \<mapsto> junk 108 @ [0x19, 0x07, 0x17, 0x20]],
                     tracker = [64 \<mapsto> \<lparr>rec_size = 100, rec_site = site\<rparr>]\<rparr>)"
    using AllocBytes_tracked [OF t, of "junk 112" 64 100 site fresh]
    by (simp add: junk_def fresh_def uint_bytes_tag)
  show "DeallocBytes tracked 64 \<lparr>heap = [64 \<mapsto> junk 112], tracker = Map.empty\<rparr> = Inl AssertionFailure"
    using DeallocBytes_tracked [OF t, of 64 "\<lparr>heap = [64 \<mapsto> junk 112], tracker = Map.empty\<rparr>" "junk 112"]
    by (simp add: junk_def nullptr_def junk_no_canary)
qed

text \<open>
  C2 does not hold of the code, by the same defect. In the build with
  \<^verbatim>\<open>CC_MEMORY_TRACKER\<close>, after \<^verbatim>\<open>AllocBytes(10)\<close> (block at 32),
  \<^verbatim>\<open>AllocBytesAligned(16, 100)\<close> (block at 64) and \<^verbatim>\<open>DeallocBytes\<close> of the
  first block, the block at 64 is live and the ledger is empty: the live aligned
  allocation has no record.
\<close>

theorem ledger_misses_aligned_allocation:
  "(case run tracked
           [(Allocate 10, Some (32, junk 16), site),
            (AllocateAligned 16 100, Some (64, junk 112), site),
            (Deallocate 32, None, site)] fresh of
      Inl e \<Rightarrow> False
    | Inr s \<Rightarrow> dom (heap s) = {64} \<and> dom (tracker s) = {})"
proof -
  have t: "CC_MEMORY_TRACKER tracked"
    by (simp add: tracked_def)
  have a: "AllocBytes tracked (Some (32, junk 16)) 10 site fresh
             = Inr (32, \<lparr>heap = [32 \<mapsto> junk 12 @ [0x19, 0x07, 0x17, 0x20]],
                         tracker = [32 \<mapsto> \<lparr>rec_size = 10, rec_site = site\<rparr>]\<rparr>)"
    using AllocBytes_tracked [OF t, of "junk 16" 32 10 site fresh]
    by (simp add: junk_def fresh_def uint_bytes_tag)
  let ?s1 = "\<lparr>heap = [32 \<mapsto> junk 12 @ [0x19, 0x07, 0x17, 0x20]],
               tracker = [32 \<mapsto> \<lparr>rec_size = 10, rec_site = site\<rparr>]\<rparr>"
  let ?s2 = "\<lparr>heap = [32 \<mapsto> junk 12 @ [0x19, 0x07, 0x17, 0x20], 64 \<mapsto> junk 112],
               tracker = [32 \<mapsto> \<lparr>rec_size = 10, rec_site = site\<rparr>]\<rparr>"
  have b: "AllocBytesAligned tracked (Some (64, junk 112)) 16 100 site ?s1 = Inr (64, ?s2)"
    by (simp add: AllocBytesAligned_def je_aligned_alloc_def tracked_def)
  have c: "DeallocBytes tracked 32 ?s2
             = Inr \<lparr>heap = [64 \<mapsto> junk 112], tracker = Map.empty\<rparr>"
    using DeallocBytes_tracked [OF t, of 32 ?s2 "junk 12 @ [0x19, 0x07, 0x17, 0x20]"]
    by (simp add: junk_def nullptr_def MEM_CHECKTAG_def fun_upd_twist)
  show ?thesis
    by (simp add: a b c)
qed

subsection \<open>The tight bound of the canary\<close>

lemma caller_write_live:
  "heap s p = Some b \<Longrightarrow> length data \<le> length b \<Longrightarrow>
     caller_write p data s = Inr (s\<lparr>heap := (heap s)(p \<mapsto> data @ drop (length data) b)\<rparr>)"
  by (simp add: caller_write_def store_bytes_def)

lemma canary_untouched:
  assumes "length data + 4 \<le> length b"
  shows "drop (length b - 4) (data @ drop (length data) (take (length b - 4) b @ t)) = t"
  using assms by simp

lemma canary_hit:
  assumes "length b = n + 4" "length data = Suc n"
  shows "drop (length b - 4) (data @ drop (length data) (take (length b - 4) b @ [t0, t1, t2, t3]))
           = [last data, t1, t2, t3]"
proof -
  from assms have d: "data \<noteq> []" by auto
  from assms have "drop n data = [last data]"
    by (metis append_butlast_last_id append_eq_conv_conj d diff_Suc_1 length_butlast)
  with assms show ?thesis by simp
qed

lemma alloc_write_free_tracked:
  assumes t: "CC_MEMORY_TRACKER cfg" and p: "p \<noteq> nullptr"
    and b: "4 \<le> length b" "length b < 2 ^ 64" and d: "length data \<le> length b"
  shows "alloc_write_free cfg (Some (p, b)) count data cs s =
           (if bytes_uint (drop (length b - 4) (data @ drop (length data) (take (length b - 4) b @ uint_bytes MEM_CHECKTAG)))
                 = MEM_CHECKTAG
            then Inr \<lparr>heap = (heap s)(p := None), tracker = (tracker s)(p := None)\<rparr>
            else Inl AssertionFailure)"
proof -
  let ?b1 = "take (length b - 4) b @ uint_bytes MEM_CHECKTAG"
  let ?s1 = "\<lparr>heap = (heap s)(p \<mapsto> ?b1), tracker = (tracker s)(p \<mapsto> \<lparr>rec_size = count, rec_site = cs\<rparr>)\<rparr>"
  let ?b2 = "data @ drop (length data) ?b1"
  have l1: "length ?b1 = length b"
    using b by (simp add: uint_bytes_tag)
  have a: "AllocBytes cfg (Some (p, b)) count cs s = Inr (p, ?s1)"
    using t b by (rule AllocBytes_tracked)
  have w: "caller_write p data ?s1 = Inr (?s1\<lparr>heap := (heap ?s1)(p \<mapsto> ?b2)\<rparr>)"
    by (rule caller_write_live) (use d l1 in simp_all)
  have l2: "length ?b2 = length b"
    using d l1 by simp
  have f: "DeallocBytes cfg p (?s1\<lparr>heap := (heap ?s1)(p \<mapsto> ?b2)\<rparr>) =
             (if bytes_uint (drop (length ?b2 - 4) ?b2) = MEM_CHECKTAG
              then Inr \<lparr>heap = (heap (?s1\<lparr>heap := (heap ?s1)(p \<mapsto> ?b2)\<rparr>))(p := None),
                        tracker = (tracker (?s1\<lparr>heap := (heap ?s1)(p \<mapsto> ?b2)\<rparr>))(p := None)\<rparr>
              else Inl AssertionFailure)"
    by (rule DeallocBytes_tracked [OF t p]) (use b l2 in simp_all)
  show ?thesis
    unfolding alloc_write_free_def a
    by (simp only: sum.case prod.case w f l2) simp
qed

lemma je_answer_ok_padded:
  assumes "CC_MEMORY_TRACKER cfg" "je_answer_ok h (count + MEM_CHECKTAG_SIZE cfg) (Some (p, b))"
    "unat count + 4 < 2 ^ 64"
  shows "p \<noteq> nullptr \<and> h p = None \<and> unat count + 4 \<le> length b \<and> length b < 2 ^ 64"
  using assms padded_size [of cfg count] by (simp add: je_answer_ok_def)

text \<open>
  C3, as the spec states it, fails: the canary sits at the end of the usable size of the
  block, not at the end of the requested size. \<^verbatim>\<open>AllocBytes(100)\<close> asks for 104
  bytes; the allocator hands out its next size class, 112 bytes, so the tag is at bytes
  108 to 111. Writing 101 bytes leaves it intact and the release passes the assertion.
\<close>

theorem overflow_by_one_undetected_counterexample:
  "alloc_write_free tracked (Some (64, junk 112)) 100 (replicate 101 0xAB) site fresh = Inr fresh"
proof -
  have t: "CC_MEMORY_TRACKER tracked"
    by (simp add: tracked_def)
  have "alloc_write_free tracked (Some (64, junk 112)) 100 (replicate 101 0xAB) site fresh =
          (if bytes_uint (drop (length (junk 112) - 4) (replicate 101 0xAB @
                drop (length (replicate 101 (0xAB :: byte))) (take (length (junk 112) - 4) (junk 112) @ uint_bytes MEM_CHECKTAG)))
                 = MEM_CHECKTAG
           then Inr \<lparr>heap = (heap fresh)(64 := None), tracker = (tracker fresh)(64 := None)\<rparr>
           else Inl AssertionFailure)"
    by (rule alloc_write_free_tracked [OF t]) (simp_all add: nullptr_def junk_def)
  then show ?thesis
    by (simp add: junk_def fresh_def bytes_uint_tag)
qed

text \<open>
  C3, amended. In the tracked build, for an allocation of \<open>count\<close> bytes that the
  allocator satisfies (the padded size not wrapping around), writing exactly \<open>count\<close>
  bytes from the returned pointer never touches the canary: the release passes the check.
  Writing \<open>count + 1\<close> bytes stops the release on the assertion exactly when the usable
  size of the block is \<open>count + 4\<close> and the extra byte differs from the first byte of
  the tag (0x19); in a larger block the write is not detected.
\<close>

theorem canary_tight_bound:
  "CC_MEMORY_TRACKER cfg \<and> je_answer_ok (heap s) (count + MEM_CHECKTAG_SIZE cfg) (Some (p, b))
     \<and> unat count + 4 < 2 ^ 64 \<longrightarrow>
   (length data = unat count \<longrightarrow>
      alloc_write_free cfg (Some (p, b)) count data cs s =
        Inr \<lparr>heap = (heap s)(p := None), tracker = (tracker s)(p := None)\<rparr>) \<and>
   (length data = unat count + 1 \<longrightarrow>
      alloc_write_free cfg (Some (p, b)) count data cs s =
        (if length b = unat count + 4 \<and> last data \<noteq> 0x19
         then Inl AssertionFailure
         else Inr \<lparr>heap = (heap s)(p := None), tracker = (tracker s)(p := None)\<rparr>))"
proof (intro impI conjI)
  assume a: "CC_MEMORY_TRACKER cfg \<and> je_answer_ok (heap s) (count + MEM_CHECKTAG_SIZE cfg) (Some (p, b))
     \<and> unat count + 4 < 2 ^ 64"
  then have t: "CC_MEMORY_TRACKER cfg" and p: "p \<noteq> nullptr"
    and b: "4 \<le> length b" "length b < 2 ^ 64" and n: "unat count + 4 \<le> length b"
    using je_answer_ok_padded [of cfg "heap s" count p b] by simp_all
  note run = alloc_write_free_tracked [OF t p b, of _ count cs s]
  show "alloc_write_free cfg (Some (p, b)) count data cs s =
          Inr \<lparr>heap = (heap s)(p := None), tracker = (tracker s)(p := None)\<rparr>"
    if "length data = unat count"
  proof -
    from that n have d: "length data + 4 \<le> length b" by simp
    then have "length data \<le> length b" by simp
    from run [OF this] show ?thesis
      by (simp only: canary_untouched [OF d] bytes_uint_tag) simp
  qed
  show "alloc_write_free cfg (Some (p, b)) count data cs s =
          (if length b = unat count + 4 \<and> last data \<noteq> 0x19
           then Inl AssertionFailure
           else Inr \<lparr>heap = (heap s)(p := None), tracker = (tracker s)(p := None)\<rparr>)"
    if l: "length data = unat count + 1"
  proof (cases "length b = unat count + 4")
    case True
    from l True have "length data \<le> length b" by simp
    note r = run [OF this]
    from l have l': "length data = Suc (unat count)" by simp
    have hit: "drop (length b - 4) (data @ drop (length data) (take (length b - 4) b @ uint_bytes MEM_CHECKTAG))
                 = [last data, 0x07, 0x17, 0x20]"
      using canary_hit [OF True l', of "0x19" "0x07" "0x17" "0x20"] by (simp only: uint_bytes_tag)
    have iff: "(bytes_uint [last data, 0x07, 0x17, 0x20] = MEM_CHECKTAG) = (last data = 0x19)"
      using canary_iff [of "[last data, 0x07, 0x17, 0x20]"]
      by (simp add: uint_bytes_tag del: bytes_uint.simps)
    from r have "alloc_write_free cfg (Some (p, b)) count data cs s =
        (if last data = 0x19
         then Inr \<lparr>heap = (heap s)(p := None), tracker = (tracker s)(p := None)\<rparr>
         else Inl AssertionFailure)"
      by (simp only: hit iff)
    with True show ?thesis
      by simp
  next
    case False
    with l n have d: "length data + 4 \<le> length b" by simp
    then have "length data \<le> length b" by simp
    from run [OF this] have "alloc_write_free cfg (Some (p, b)) count data cs s =
        Inr \<lparr>heap = (heap s)(p := None), tracker = (tracker s)(p := None)\<rparr>"
      by (simp only: canary_untouched [OF d] bytes_uint_tag) simp
    with False show ?thesis
      by simp
  qed
qed

text \<open>
  Witness for the amended C3: a request of 100 bytes answered with a block of exactly 104
  bytes at address 64. Writing 100 bytes passes; writing 101 bytes of 0xAB is detected.
\<close>

theorem canary_tight_bound_witness:
  "alloc_write_free tracked (Some (64, junk 104)) 100 (replicate 100 0xAB) site fresh = Inr fresh \<and>
   alloc_write_free tracked (Some (64, junk 104)) 100 (replicate 101 0xAB) site fresh = Inl AssertionFailure"
proof -
  have h: "CC_MEMORY_TRACKER tracked \<and>
           je_answer_ok (heap fresh) (100 + MEM_CHECKTAG_SIZE tracked) (Some (64, junk 104)) \<and>
           unat (100 :: size_t) + 4 < 2 ^ 64"
    by (simp add: tracked_def je_answer_ok_def fresh_def MEM_CHECKTAG_SIZE_def nullptr_def junk_def)
  note c = canary_tight_bound [of tracked fresh 100 64 "junk 104" _ site, THEN mp, OF h]
  have c1: "alloc_write_free tracked (Some (64, junk 104)) 100 (replicate 100 0xAB) site fresh = Inr fresh"
    using c [of "replicate 100 0xAB", THEN conjunct1] by (simp add: fresh_def)
  have c2: "alloc_write_free tracked (Some (64, junk 104)) 100 (replicate 101 0xAB) site fresh = Inl AssertionFailure"
    using c [of "replicate 101 0xAB", THEN conjunct2] by (simp add: junk_def)
  from c1 c2 show ?thesis
    by (intro conjI)
qed

subsection \<open>Resizing\<close>

lemma word_min_unat:
  "unat (if (a :: size_t) > c then c else a) = min (unat a) (unat c)"
  by (simp add: word_less_nat_alt min_def)

lemma ReallocBytes_resize:
  assumes t: "CC_MEMORY_TRACKER cfg" and ptr: "ptr \<noteq> nullptr" and cnt: "count \<noteq> 0"
    and old: "heap s ptr = Some old" "4 \<le> length old" "length old < 2 ^ 64"
    and new: "p \<noteq> ptr" "unat count + 4 \<le> length b" "length b < 2 ^ 64"
  shows "ReallocBytes cfg (Some (p, b)) ptr count cs s =
           (if bytes_uint (drop (length old - 4) old) = MEM_CHECKTAG
            then Inr (p, \<lparr>heap = ((heap s)
                              (p \<mapsto> take (length b - 4)
                                      (take (min (length old - 4) (unat count)) old @
                                       drop (min (length old - 4) (unat count)) b)
                                    @ uint_bytes MEM_CHECKTAG))
                              (ptr := None),
                          tracker = ((tracker s)(p \<mapsto> \<lparr>rec_size = count, rec_site = cs\<rparr>))(ptr := None)\<rparr>)
            else Inl AssertionFailure)"
proof -
  let ?k = "min (length old - 4) (unat count)"
  let ?oldsz = "je_malloc_usable_size (heap s) ptr - MEM_CHECKTAG_SIZE cfg"
  let ?oldsz' = "if ?oldsz > count then count else ?oldsz"
  let ?h1 = "(heap s)(p \<mapsto> b)"
  let ?b2 = "take ?k old @ drop ?k b"
  let ?h2 = "?h1(p \<mapsto> ?b2)"
  let ?b3 = "take (length b - 4) ?b2 @ uint_bytes MEM_CHECKTAG"
  let ?h3 = "?h2(p \<mapsto> ?b3)"
  have "unat ?oldsz = length old - 4"
    using t old usable_sub4 [of "heap s" ptr old] by (simp add: MEM_CHECKTAG_SIZE_def)
  then have k: "unat ?oldsz' = ?k"
    by (simp only: word_min_unat)
  have kb: "?k \<le> length b" "?k \<le> length old"
    using new old by simp_all
  have m: "je_malloc (Some (p, b)) (count + MEM_CHECKTAG_SIZE cfg) (heap s) = (p, ?h1)"
    by (simp add: je_malloc_def)
  have ld: "load_bytes ?h1 ptr 0 ?oldsz' = Inr (take ?k old)"
    using new(1) old kb by (simp add: load_bytes_def k)
  have st: "store_bytes ?h1 p 0 (take ?k old) = Inr ?h2"
    using kb by (simp add: store_bytes_def)
  have l2: "length ?b2 = length b"
    using kb by simp
  have ca: "CheckOverflowAlloc ?h2 p = Inr ?h3"
  proof -
    have live: "?h2 p = Some ?b2"
      by simp
    have "4 \<le> length ?b2" "length ?b2 < 2 ^ 64"
      unfolding l2 using new by simp_all
    from CheckOverflowAlloc_live [of ?h2 p ?b2, OF live this] show ?thesis
      unfolding l2 by simp
  qed
  have cf: "CheckOverflowFree ?h3 ptr =
              (if bytes_uint (drop (length old - 4) old) = MEM_CHECKTAG then Inr () else Inl AssertionFailure)"
  proof -
    have live: "?h3 ptr = Some old"
      using new(1) old(1) by simp
    from CheckOverflowFree_live [of ?h3 ptr old, OF live old(2,3)] show ?thesis .
  qed
  have fr: "je_free ptr ?h3 = Inr (?h3(ptr := None))"
    using ptr new(1) old by (simp add: je_free_def)
  have h3: "?h3(ptr := None) = ((heap s)(p \<mapsto> ?b3))(ptr := None)"
    by simp
  show ?thesis
    using t ptr cnt
    by (simp only: ReallocBytes_def if_True if_False Let_def m prod.case ld sum.case st ca cf fr h3
          RecordAlloc_def RecordFree_def not_not refl split: if_split)
       simp
qed

lemma take_resized:
  assumes "m \<le> k" "k \<le> length old" "k \<le> n" "n \<le> length b"
  shows "take m (take n (take k old @ drop k b) @ t) = take m old"
proof -
  have "length (take n (take k old @ drop k b)) = n"
    using assms by simp
  with assms have "take m (take n (take k old @ drop k b) @ t) = take m (take n (take k old @ drop k b))"
    by simp
  also have "\<dots> = take m (take k old @ drop k b)"
    using assms by (simp add: min_absorb1)
  also have "\<dots> = take m (take k old)"
    using assms by simp
  also have "\<dots> = take m old"
    using assms by (simp add: min_absorb1)
  finally show ?thesis .
qed

text \<open>
  The padded size is computed in \<^verbatim>\<open>size_t\<close>. For \<open>count = 2^64 - 1\<close> the
  allocator is asked for 3 bytes; with jemalloc's size classes it answers with 8 bytes,
  and the copy of the 12 usable bytes of a block allocated for 8 leaves the new block.
\<close>

lemma ReallocBytes_wrapped_size_overrun:
  "ReallocBytes tracked (Some (128, junk 8)) 64 0xFFFFFFFFFFFFFFFF site
       \<lparr>heap = [64 \<mapsto> [1, 2, 3, 4, 5, 6, 7, 8, 0, 0, 0, 0, 0x19, 0x07, 0x17, 0x20]],
          tracker = [64 \<mapsto> \<lparr>rec_size = 8, rec_site = site\<rparr>]\<rparr>
     = Inl InvalidAccess"
proof -
  let ?old = "[1, 2, 3, 4, 5, 6, 7, 8, 0, 0, 0, 0, 0x19, 0x07, 0x17, 0x20] :: byte list"
  let ?h = "[64 \<mapsto> ?old]"
  let ?h1 = "?h(128 \<mapsto> junk 8)"
  have u: "je_malloc_usable_size ?h 64 - MEM_CHECKTAG_SIZE tracked = 12"
    by (simp add: je_malloc_usable_size_def MEM_CHECKTAG_SIZE_def tracked_def)
  have m: "je_malloc (Some (128, junk 8)) (0xFFFFFFFFFFFFFFFF + MEM_CHECKTAG_SIZE tracked) ?h = (128, ?h1)"
    by (simp add: je_malloc_def)
  have ld: "load_bytes ?h1 64 0 12 = Inr [1, 2, 3, 4, 5, 6, 7, 8, 0, 0, 0, 0]"
    by (simp add: load_bytes_def)
  have st: "store_bytes ?h1 128 0 [1, 2, 3, 4, 5, 6, 7, 8, 0, 0, 0, 0] = Inl InvalidAccess"
    by (simp add: store_bytes_def junk_def)
  have t: "CC_MEMORY_TRACKER tracked" "(64 :: addr) \<noteq> nullptr"
    by (simp_all add: tracked_def nullptr_def)
  have k: "(if (12 :: size_t) > 0xFFFFFFFFFFFFFFFF then 0xFFFFFFFFFFFFFFFF else (12 :: size_t)) = 12"
    by simp
  show ?thesis
    unfolding ReallocBytes_def
    by (simp only: t if_True simp_thms state.simps u Let_def m prod.case k ld st sum.case)
       simp
qed

text \<open>
  C7, as the spec states it, fails for the largest counts: the padded size
  \<open>count + 4\<close> is computed in \<^verbatim>\<open>size_t\<close> and wraps around. For a block
  allocated for 8 bytes (usable size 12) and \<open>count = 2^64 - 1\<close>, the allocator is
  asked for 3 bytes and answers with a block of 8; eight bytes are copied, and the tag,
  written at byte 4 of the new block, replaces the last four of them.
\<close>

theorem ReallocBytes_wrapped_size_counterexample:
  "ReallocBytes tracked (Some (128, junk 8)) 64 0xFFFFFFFFFFFFFFFF site
       \<lparr>heap = [64 \<mapsto> [1, 2, 3, 4, 5, 6, 7, 8, 0x19, 0x07, 0x17, 0x20]],
          tracker = [64 \<mapsto> \<lparr>rec_size = 8, rec_site = site\<rparr>]\<rparr>
     = Inr (128, \<lparr>heap = [128 \<mapsto> [1, 2, 3, 4, 0x19, 0x07, 0x17, 0x20]],
                   tracker = [128 \<mapsto> \<lparr>rec_size = 0xFFFFFFFFFFFFFFFF, rec_site = site\<rparr>]\<rparr>)"
proof -
  let ?old = "[1, 2, 3, 4, 5, 6, 7, 8, 0x19, 0x07, 0x17, 0x20] :: byte list"
  let ?h = "[64 \<mapsto> ?old]"
  let ?h1 = "?h(128 \<mapsto> junk 8)"
  let ?h2 = "?h(128 \<mapsto> [1, 2, 3, 4, 5, 6, 7, 8])"
  let ?h3 = "?h(128 \<mapsto> [1, 2, 3, 4, 0x19, 0x07, 0x17, 0x20])"
  have u: "je_malloc_usable_size ?h 64 - MEM_CHECKTAG_SIZE tracked = 8"
    by (simp add: je_malloc_usable_size_def MEM_CHECKTAG_SIZE_def tracked_def)
  have m: "je_malloc (Some (128, junk 8)) (0xFFFFFFFFFFFFFFFF + MEM_CHECKTAG_SIZE tracked) ?h = (128, ?h1)"
    by (simp add: je_malloc_def)
  have ld: "load_bytes ?h1 64 0 8 = Inr [1, 2, 3, 4, 5, 6, 7, 8]"
    by (simp add: load_bytes_def)
  have st: "store_bytes ?h1 128 0 [1, 2, 3, 4, 5, 6, 7, 8] = Inr ?h2"
    by (simp add: store_bytes_def junk_def)
  have ca: "CheckOverflowAlloc ?h2 128 = Inr ?h3"
    using CheckOverflowAlloc_live [of ?h2 128 "[1, 2, 3, 4, 5, 6, 7, 8]"]
    by (simp add: uint_bytes_tag)
  have cf: "CheckOverflowFree ?h3 64 = Inr ()"
    using CheckOverflowFree_live [of ?h3 64 ?old]
    by (simp add: MEM_CHECKTAG_def)
  have fr: "je_free 64 ?h3 = Inr [128 \<mapsto> [1, 2, 3, 4, 0x19, 0x07, 0x17, 0x20]]"
    by (simp add: je_free_def nullptr_def fun_upd_twist)
  have t: "CC_MEMORY_TRACKER tracked" "(64 :: addr) \<noteq> nullptr"
    by (simp_all add: tracked_def nullptr_def)
  have tr: "RecordFree (RecordAlloc [64 \<mapsto> \<lparr>rec_size = 8, rec_site = site\<rparr>] 128 0xFFFFFFFFFFFFFFFF site) 64
              = [128 \<mapsto> \<lparr>rec_size = 0xFFFFFFFFFFFFFFFF, rec_site = site\<rparr>]"
    by (simp add: RecordAlloc_def RecordFree_def fun_upd_twist)
  have k: "(if (8 :: size_t) > 0xFFFFFFFFFFFFFFFF then 0xFFFFFFFFFFFFFFFF else (8 :: size_t)) = 8"
    by simp
  show ?thesis
    unfolding ReallocBytes_def
    by (simp only: t if_True simp_thms state.simps u Let_def m prod.case k ld st ca cf fr tr sum.case)
       simp
qed

text \<open>
  C7, amended. In the tracked build, let \<open>ptr\<close> name a live block with an intact canary,
  allocated for \<open>old_size\<close> bytes, and let \<open>N > 0\<close>, with \<open>N + 4\<close> not
  wrapping around, be satisfied by the allocator. Then \<^verbatim>\<open>ReallocBytes(ptr, N)\<close>
  returns the allocator's new block, which is not \<open>ptr\<close>; its first
  \<open>min(old_size, N)\<close> bytes, and indeed its first \<open>min(usable(ptr) - 4, N)\<close> bytes
  (the length copied), are those of the old block; the old block is freed and the ledger
  holds the new record in place of the old one: allocate, copy, free, never a resize in
  place.
\<close>

theorem ReallocBytes_preserves_content:
  "CC_MEMORY_TRACKER cfg \<and> ptr \<noteq> nullptr \<and> count \<noteq> 0 \<and>
   heap s ptr = Some old \<and> unat old_size + 4 \<le> length old \<and> length old < 2 ^ 64 \<and>
   bytes_uint (drop (length old - 4) old) = MEM_CHECKTAG \<and>
   je_answer_ok (heap s) (count + MEM_CHECKTAG_SIZE cfg) (Some (p, b)) \<and> unat count + 4 < 2 ^ 64 \<longrightarrow>
   (case ReallocBytes cfg (Some (p, b)) ptr count cs s of
      Inl e \<Rightarrow> False
    | Inr (q, s') \<Rightarrow>
        q = p \<and> p \<noteq> ptr \<and> heap s' ptr = None \<and>
        (case heap s' q of
           None \<Rightarrow> False
         | Some nb \<Rightarrow>
             take (min (unat old_size) (unat count)) nb = take (min (unat old_size) (unat count)) old \<and>
             take (min (length old - 4) (unat count)) nb = take (min (length old - 4) (unat count)) old) \<and>
        tracker s' = ((tracker s)(p \<mapsto> \<lparr>rec_size = count, rec_site = cs\<rparr>))(ptr := None))"
proof
  assume a: "CC_MEMORY_TRACKER cfg \<and> ptr \<noteq> nullptr \<and> count \<noteq> 0 \<and>
   heap s ptr = Some old \<and> unat old_size + 4 \<le> length old \<and> length old < 2 ^ 64 \<and>
   bytes_uint (drop (length old - 4) old) = MEM_CHECKTAG \<and>
   je_answer_ok (heap s) (count + MEM_CHECKTAG_SIZE cfg) (Some (p, b)) \<and> unat count + 4 < 2 ^ 64"
  then have t: "CC_MEMORY_TRACKER cfg" and ptr: "ptr \<noteq> nullptr" and cnt: "count \<noteq> 0"
    and old: "heap s ptr = Some old" "4 \<le> length old" "length old < 2 ^ 64"
    and sz: "unat old_size + 4 \<le> length old"
    and canary: "bytes_uint (drop (length old - 4) old) = MEM_CHECKTAG"
    by simp_all
  from a have "heap s p = None \<and> unat count + 4 \<le> length b \<and> length b < 2 ^ 64"
    using je_answer_ok_padded [of cfg "heap s" count p b] by simp
  with old(1) have new: "p \<noteq> ptr" "unat count + 4 \<le> length b" "length b < 2 ^ 64"
    by auto
  let ?k = "min (length old - 4) (unat count)"
  let ?nb = "take (length b - 4) (take ?k old @ drop ?k b) @ uint_bytes MEM_CHECKTAG"
  have r: "ReallocBytes cfg (Some (p, b)) ptr count cs s =
             Inr (p, \<lparr>heap = ((heap s)(p \<mapsto> ?nb))(ptr := None),
                       tracker = ((tracker s)(p \<mapsto> \<lparr>rec_size = count, rec_site = cs\<rparr>))(ptr := None)\<rparr>)"
    using ReallocBytes_resize [OF t ptr cnt old new, of cs] canary by simp
  have k1: "take ?k ?nb = take ?k old"
    by (rule take_resized) (use new old in simp_all)
  have k2: "take (min (unat old_size) (unat count)) ?nb = take (min (unat old_size) (unat count)) old"
    by (rule take_resized [where k = ?k]) (use new old sz in simp_all)
  show "case ReallocBytes cfg (Some (p, b)) ptr count cs s of
      Inl e \<Rightarrow> False
    | Inr (q, s') \<Rightarrow>
        q = p \<and> p \<noteq> ptr \<and> heap s' ptr = None \<and>
        (case heap s' q of
           None \<Rightarrow> False
         | Some nb \<Rightarrow>
             take (min (unat old_size) (unat count)) nb = take (min (unat old_size) (unat count)) old \<and>
             take (min (length old - 4) (unat count)) nb = take (min (length old - 4) (unat count)) old) \<and>
        tracker s' = ((tracker s)(p \<mapsto> \<lparr>rec_size = count, rec_site = cs\<rparr>))(ptr := None)"
    unfolding r using new(1) k1 k2 by simp
qed

text \<open>
  Witness for the amended C7, the example of the spec: a block allocated for 50 bytes (usable size
  64, at address 64) filled with 0x11, resized to 200 bytes; the allocator answers with a
  block of 208 bytes at address 128.
\<close>

theorem ReallocBytes_preserves_content_witness:
  "(case ReallocBytes tracked (Some (128, junk 208)) 64 200 site
           \<lparr>heap = [64 \<mapsto> replicate 50 0x11 @ junk 10 @ [0x19, 0x07, 0x17, 0x20]],
              tracker = [64 \<mapsto> \<lparr>rec_size = 50, rec_site = site\<rparr>]\<rparr> of
      Inl e \<Rightarrow> False
    | Inr (q, s') \<Rightarrow>
        q = 128 \<and> heap s' 64 = None \<and>
        (case heap s' q of None \<Rightarrow> False | Some nb \<Rightarrow> take 50 nb = replicate 50 0x11) \<and>
        tracker s' = [128 \<mapsto> \<lparr>rec_size = 200, rec_site = site\<rparr>])"
proof -
  let ?old = "replicate 50 0x11 @ junk 10 @ [0x19, 0x07, 0x17, 0x20]"
  let ?s = "\<lparr>heap = [64 \<mapsto> ?old], tracker = [64 \<mapsto> \<lparr>rec_size = 50, rec_site = site\<rparr>]\<rparr>"
  have h: "CC_MEMORY_TRACKER tracked \<and> (64 :: addr) \<noteq> nullptr \<and> (200 :: size_t) \<noteq> 0 \<and>
     heap ?s 64 = Some ?old \<and> unat (50 :: size_t) + 4 \<le> length ?old \<and> length ?old < 2 ^ 64 \<and>
     bytes_uint (drop (length ?old - 4) ?old) = MEM_CHECKTAG \<and>
     je_answer_ok (heap ?s) (200 + MEM_CHECKTAG_SIZE tracked) (Some (128, junk 208)) \<and>
     unat (200 :: size_t) + 4 < 2 ^ 64"
    by (simp add: tracked_def nullptr_def junk_def je_answer_ok_def MEM_CHECKTAG_SIZE_def MEM_CHECKTAG_def)
  from ReallocBytes_preserves_content [of tracked 64 200 ?s ?old 50 128 "junk 208" site, THEN mp, OF h]
  show ?thesis
    by (auto split: sum.splits prod.splits option.splits simp add: fun_upd_twist)
qed

subsection \<open>The trimming commands\<close>

lemma TrimAlloc_events:
  "TrimAlloc je_mallctl =
     Inr [Mallctl ''arenas.narenas'',
          Stdout (''jemalloc trim: arena.''
                   @ dec_int (case snd (je_mallctl ''arenas.narenas'') of None \<Rightarrow> 0 | Some v \<Rightarrow> c_int v)
                   @ ''.purge'' @ [CHR 0x0A]),
          Mallctl (''arena.''
                   @ dec_int (case snd (je_mallctl ''arenas.narenas'') of None \<Rightarrow> 0 | Some v \<Rightarrow> c_int v)
                   @ ''.purge'')]"
proof -
  let ?n = "case snd (je_mallctl ''arenas.narenas'') of None \<Rightarrow> 0 | Some v \<Rightarrow> c_int v"
  have "- (2 ^ 31) \<le> ?n \<and> ?n < 2 ^ 31"
    using c_int_range by (simp split: option.split)
  then have "length (dec_int ?n) \<le> 11"
    by (simp add: length_dec_int)
  then have "sprintf_into 24 (''arena.'' @ dec_int ?n @ ''.purge'') = Inr (''arena.'' @ dec_int ?n @ ''.purge'')"
    by (simp add: sprintf_into_def)
  then show ?thesis
    by (simp add: TrimAlloc_def Let_def)
qed

lemma digit_value_digit_char: "d < 10 \<Longrightarrow> digit_value (digit_char d) = Some d"
proof -
  assume "d < 10"
  then have "d = 0 \<or> d = 1 \<or> d = 2 \<or> d = 3 \<or> d = 4 \<or> d = 5 \<or> d = 6 \<or> d = 7 \<or> d = 8 \<or> d = 9"
    by arith
  then show ?thesis
    by (elim disjE) (simp_all add: digit_value_def digit_char_def)
qed

lemma parse_digits_snoc:
  "parse_digits acc (xs @ [c]) =
     (case parse_digits acc xs of
        None \<Rightarrow> None
      | Some v \<Rightarrow> (case digit_value c of None \<Rightarrow> None | Some d \<Rightarrow> Some (10 * v + d)))"
  by (induction xs arbitrary: acc) (simp_all split: option.split)

lemma parse_digits_dec_nat: "parse_digits 0 (dec_nat n) = Some n"
proof (induction n rule: dec_nat.induct)
  case (1 n)
  show ?case
  proof (cases "n < 10")
    case True
    then show ?thesis
      by (simp add: dec_nat.simps [of n] digit_value_digit_char)
  next
    case False
    have "n mod 10 < 10"
      by simp
    then have d: "digit_value (digit_char (n mod 10)) = Some (n mod 10)"
      by (rule digit_value_digit_char)
    from False "1.IH" have "parse_digits 0 (dec_nat (n div 10)) = Some (n div 10)"
      by simp
    with False d show ?thesis
      by (simp add: dec_nat.simps [of n] parse_digits_snoc)
  qed
qed

lemma dec_nat_not_empty: "dec_nat n \<noteq> []"
  by (simp add: dec_nat.simps [of n])

lemma parse_nat_dec_int: "parse_nat (dec_int (int n)) = Some n"
  by (simp add: parse_nat_def dec_int_def dec_nat_not_empty parse_digits_dec_nat)

lemma arena_purge_index_format: "arena_purge_index (''arena.'' @ ds @ ''.purge'') = parse_nat ds"
  by (simp add: arena_purge_index_def)

text \<open>
  C9, as the spec states it, fails when the arena-count query fails: the failure is
  ignored, \<^verbatim>\<open>narenas\<close> keeps its initial 0, and the command issued is
  \<^verbatim>\<open>arena.0.purge\<close>, which in an allocator with 4 arenas purges arena 0 alone:
  neither one command per arena nor a purge of all.
\<close>

theorem TrimAlloc_failed_query_counterexample:
  "TrimAlloc query_fails =
     Inr [Mallctl ''arenas.narenas'',
          Stdout (''jemalloc trim: arena.0.purge'' @ [CHR 0x0A]),
          Mallctl ''arena.0.purge''] \<and>
   purged_arenas 4 ''arena.0.purge'' = Some {0}"
proof
  show "TrimAlloc query_fails =
     Inr [Mallctl ''arenas.narenas'',
          Stdout (''jemalloc trim: arena.0.purge'' @ [CHR 0x0A]),
          Mallctl ''arena.0.purge'']"
    by (simp add: TrimAlloc_def query_fails_def sprintf_into_def dec_int_def dec_nat.simps digit_char_def)
  show "purged_arenas 4 ''arena.0.purge'' = Some {0}"
    by (simp add: purged_arenas_def arena_purge_index_def parse_nat_def digit_value_def)
qed

text \<open>
  C9, amended. \<^verbatim>\<open>TrimAlloc\<close> always completes, whatever the control interface
  returns, and makes exactly two control calls: first the read of
  \<^verbatim>\<open>arenas.narenas\<close>, then one purge command. When the read succeeds with the
  arena count \<open>n\<close>, the command is the one that purges all \<open>n\<close> arenas of the
  allocator; when the read fails, the command is \<^verbatim>\<open>arena.0.purge\<close>.
\<close>

theorem TrimAlloc_purges_all:
  "(case TrimAlloc je_mallctl of
      Inl e \<Rightarrow> False
    | Inr evs \<Rightarrow> length (commands evs) = 2 \<and> commands evs ! 0 = ''arenas.narenas'') \<and>
   (snd (je_mallctl ''arenas.narenas'') = Some (int n) \<and> n < 2 ^ 31 \<longrightarrow>
      (case TrimAlloc je_mallctl of
         Inl e \<Rightarrow> False
       | Inr evs \<Rightarrow> purged_arenas n (commands evs ! 1) = Some {0..<n})) \<and>
   (snd (je_mallctl ''arenas.narenas'') = None \<longrightarrow>
      (case TrimAlloc je_mallctl of
         Inl e \<Rightarrow> False
       | Inr evs \<Rightarrow> commands evs ! 1 = ''arena.0.purge''))"
proof (intro conjI impI)
  show "case TrimAlloc je_mallctl of
      Inl e \<Rightarrow> False
    | Inr evs \<Rightarrow> length (commands evs) = 2 \<and> commands evs ! 0 = ''arenas.narenas''"
    by (simp add: TrimAlloc_events)
next
  assume a: "snd (je_mallctl ''arenas.narenas'') = Some (int n) \<and> n < 2 ^ 31"
  then have "c_int (int n) = int n"
    by (simp add: c_int_id)
  with a have "commands (projr (TrimAlloc je_mallctl)) ! 1 = ''arena.'' @ dec_int (int n) @ ''.purge''"
    by (simp add: TrimAlloc_events)
  moreover have "purged_arenas n (''arena.'' @ dec_int (int n) @ ''.purge'') = Some {0..<n}"
    by (simp only: purged_arenas_def arena_purge_index_format parse_nat_dec_int) simp
  ultimately show "case TrimAlloc je_mallctl of
         Inl e \<Rightarrow> False
       | Inr evs \<Rightarrow> purged_arenas n (commands evs ! 1) = Some {0..<n}"
    by (simp add: TrimAlloc_events)
next
  assume "snd (je_mallctl ''arenas.narenas'') = None"
  then show "case TrimAlloc je_mallctl of
         Inl e \<Rightarrow> False
       | Inr evs \<Rightarrow> commands evs ! 1 = ''arena.0.purge''"
    by (simp add: TrimAlloc_events dec_int_def dec_nat.simps digit_char_def)
qed

text \<open>
  Witness for the amended C9: the allocator reports 4 arenas; the calls are the read and
  \<^verbatim>\<open>arena.4.purge\<close>, which purges arenas 0 to 3.
\<close>

theorem TrimAlloc_purges_all_witness:
  "TrimAlloc four_arenas =
     Inr [Mallctl ''arenas.narenas'',
          Stdout (''jemalloc trim: arena.4.purge'' @ [CHR 0x0A]),
          Mallctl ''arena.4.purge''] \<and>
   purged_arenas 4 ''arena.4.purge'' = Some {0, 1, 2, 3}"
proof -
  have e: "TrimAlloc four_arenas =
     Inr [Mallctl ''arenas.narenas'',
          Stdout (''jemalloc trim: arena.4.purge'' @ [CHR 0x0A]),
          Mallctl ''arena.4.purge'']"
    by (simp add: TrimAlloc_def four_arenas_def sprintf_into_def c_int_def dec_int_def dec_nat.simps digit_char_def)
  have h: "snd (four_arenas ''arenas.narenas'') = Some (int 4) \<and> (4 :: nat) < 2 ^ 31"
    by (simp add: four_arenas_def)
  from TrimAlloc_purges_all [of four_arenas 4, THEN conjunct2, THEN conjunct1, THEN mp, OF h]
  have "purged_arenas 4 ''arena.4.purge'' = Some {0..<4}"
    by (simp add: e)
  moreover have "{0..<4::nat} = {0, 1, 2, 3}"
    by auto
  ultimately show ?thesis
    using e by simp
qed

subsection \<open>The statistics report\<close>

lemma c_int_nat: "n < 2 ^ 31 \<Longrightarrow> c_int (int n) = int n"
  by (rule c_int_id) simp_all

lemma JeStatsPrint_full:
  "JeStatsPrint (\<lparr>jd_buf = c, jd_size = 0\<rparr>, mem) msg = Inr (\<lparr>jd_buf = c, jd_size = 0\<rparr>, mem)"
  by (simp add: JeStatsPrint_def)

lemma JeStatsPrint_room:
  assumes c: "c + 1 < cap" and cap: "cap \<le> length mem" "cap \<le> 2 ^ 31" and msg: "length msg < 2 ^ 31"
    and len: "len = min (length msg) (cap - 1 - c)"
  shows "JeStatsPrint (\<lparr>jd_buf = int c, jd_size = int (cap - 1 - c)\<rparr>, mem) msg =
           Inr (\<lparr>jd_buf = int (c + len), jd_size = int (cap - 1 - (c + len))\<rparr>,
                take c mem @ take len msg @ CHR 0x00 # drop (c + len + 1) mem)"
proof -
  let ?size = "int (cap - 1 - c)"
  have nz: "?size \<noteq> 0"
    using c by simp
  have l0: "c_int (int (length msg)) = int (length msg)"
    using msg by (rule c_int_nat)
  have l1: "(if int (length msg) > ?size then ?size else int (length msg)) = int len"
    using len by (simp add: min_def)
  have b: "c + len < cap" "len \<le> length msg"
    using c len by simp_all
  let ?mem1 = "take c mem @ take len msg @ drop (c + len) mem"
  have m1: "memcpy_arr mem (int c) msg (int len) = Inr ?mem1"
    using b cap by (simp add: memcpy_arr_def nat_add_distrib)
  have len1: "length ?mem1 = length mem"
    using b cap by simp
  have m2: "memcpy_arr ?mem1 (int c + int len) [CHR 0x00] 1 =
              Inr (take c mem @ take len msg @ CHR 0x00 # drop (c + len + 1) mem)"
  proof -
    have "int (length ?mem1) \<ge> int c + int len + 1"
      unfolding len1 using b cap by simp
    moreover have "take (c + len) ?mem1 = take c mem @ take len msg"
      using b cap by simp
    moreover have "drop (c + len + 1) ?mem1 = drop (c + len + 1) mem"
      using b cap by simp
    moreover have "nat (int c + int len) = c + len" "nat (int c + int len + 1) = c + len + 1"
      by simp_all
    ultimately show ?thesis
      by (simp only: memcpy_arr_def) simp
  qed
  have sz: "c_int (?size - int len) = int (cap - 1 - (c + len))"
  proof -
    have "?size - int len = int (cap - 1 - (c + len))"
      using b by simp
    moreover have "cap - 1 - (c + len) < 2 ^ 31"
      using cap by simp
    ultimately show ?thesis
      by (simp only: c_int_nat)
  qed
  show ?thesis
    unfolding JeStatsPrint_def
    by (simp only: prod.case Let_def JeDumpData.simps nz if_False l0 l1 m1 sum.case m2 sz of_nat_add)
qed

lemma stats_print_invariant:
  assumes cap: "1 \<le> cap" "cap \<le> length mem0" "cap \<le> 2 ^ 31"
    and msgs: "\<forall>m \<in> set msgs. length m < 2 ^ 31"
    and c: "c = min (length T) (cap - 1)"
  shows "je_malloc_stats_print JeStatsPrint
           (\<lparr>jd_buf = int c, jd_size = int (cap - 1 - c)\<rparr>, take c T @ CHR 0x00 # drop (c + 1) mem0) msgs =
         Inr (\<lparr>jd_buf = int (min (length (T @ concat msgs)) (cap - 1)),
                jd_size = int (cap - 1 - min (length (T @ concat msgs)) (cap - 1))\<rparr>,
              take (min (length (T @ concat msgs)) (cap - 1)) (T @ concat msgs)
                @ CHR 0x00 # drop (min (length (T @ concat msgs)) (cap - 1) + 1) mem0)"
  using msgs c
proof (induction msgs arbitrary: T c)
  case Nil
  then show ?case by simp
next
  case (Cons m ms)
  let ?c2 = "min (length (T @ m)) (cap - 1)"
  let ?mem = "take c T @ CHR 0x00 # drop (c + 1) mem0"
  have step: "JeStatsPrint (\<lparr>jd_buf = int c, jd_size = int (cap - 1 - c)\<rparr>, ?mem) m =
                Inr (\<lparr>jd_buf = int ?c2, jd_size = int (cap - 1 - ?c2)\<rparr>,
                     take ?c2 (T @ m) @ CHR 0x00 # drop (?c2 + 1) mem0)"
  proof (cases "c = cap - 1")
    case True
    with Cons.prems have "cap - 1 \<le> length T"
      by simp
    then have "?c2 = c" "take ?c2 (T @ m) = take c T"
      using True by simp_all
    with True show ?thesis
      by (simp add: JeStatsPrint_full)
  next
    case False
    with Cons.prems have cT: "c = length T" "c + 1 < cap"
      by (simp_all add: min_def split: if_splits)
    let ?len = "min (length m) (cap - 1 - c)"
    have lm: "cap \<le> length ?mem"
      using cT cap by simp
    have "length m < 2 ^ 31"
      using Cons.prems by simp
    from JeStatsPrint_room [OF cT(2) lm cap(3) this refl]
    have r: "JeStatsPrint (\<lparr>jd_buf = int c, jd_size = int (cap - 1 - c)\<rparr>, ?mem) m =
               Inr (\<lparr>jd_buf = int (c + ?len), jd_size = int (cap - 1 - (c + ?len))\<rparr>,
                    take c ?mem @ take ?len m @ CHR 0x00 # drop (c + ?len + 1) ?mem)" .
    have e1: "c + ?len = ?c2"
      using cT by (auto simp add: min_def)
    have e2: "take c ?mem @ take ?len m = take ?c2 (T @ m)"
    proof -
      have "take c ?mem = T"
        using cT by simp
      moreover have "take ?c2 (T @ m) = T @ take ?len m"
        unfolding e1 [symmetric] using cT by simp
      ultimately show ?thesis
        by simp
    qed
    have e3: "drop (c + ?len + 1) ?mem = drop (?c2 + 1) mem0"
      unfolding e1 [symmetric] using cT by (simp add: ac_simps)
    from r show ?thesis
      unfolding e3 unfolding e1 using e2 by simp
  qed
  have "\<forall>m \<in> set ms. length m < 2 ^ 31"
    using Cons.prems by simp
  from Cons.IH [OF this refl, of "T @ m"] step show ?case
    by simp
qed

lemma drop_past_terminator:
  assumes "k < cap" "k \<le> length T"
  shows "drop cap (take k T @ z # drop (k + 1) mem) = drop cap mem"
proof -
  from assms obtain d where d: "cap = k + 1 + d"
    by (metis Suc_eq_plus1 less_iff_Suc_add add.assoc add.commute)
  from assms have "length (take k T) = k"
    by simp
  then have "drop cap (take k T @ z # drop (k + 1) mem) = drop (1 + d) (z # drop (k + 1) mem)"
    unfolding d by simp
  also have "\<dots> = drop cap mem"
    unfolding d by (simp add: ac_simps)
  finally show ?thesis .
qed

text \<open>
  C5, as the spec states it, fails. With a capacity of 1, \<^verbatim>\<open>jd.size\<close> starts at 0
  and the callback returns at once for every message: nothing is written, not even the
  terminator, and a buffer that held \<open>X\<close> still holds it.
\<close>

theorem DumpStats_capacity_one_counterexample:
  "DumpStats [''abc''] ''X'' 1 = Inr ''X''"
  by (simp add: DumpStats_def c_int_def JeStatsPrint_def)

text \<open>
  C5, amended. For every capacity of at least 2 (an \<^verbatim>\<open>int\<close>; the buffer has that many
  bytes) and every report of at least one message (each shorter than \<open>2^31\<close>),
  \<^verbatim>\<open>DumpStats\<close> completes and leaves in the buffer the report cut to
  capacity - 1 bytes, followed by the terminator, followed by the bytes the buffer held
  before: the terminator is inside the capacity and no byte at or beyond the capacity
  is written.
\<close>

theorem DumpStats_bounded:
  "2 \<le> bufsize \<and> bufsize < 2 ^ 31 \<and> bufsize \<le> int (length mem) \<and>
   report \<noteq> [] \<and> (\<forall>msg \<in> set report. length msg < 2 ^ 31) \<longrightarrow>
   DumpStats report mem bufsize =
     Inr (take (min (length (concat report)) (nat bufsize - 1)) (concat report)
          @ CHR 0x00 # drop (min (length (concat report)) (nat bufsize - 1) + 1) mem) \<and>
   (case DumpStats report mem bufsize of
      Inl e \<Rightarrow> False
    | Inr mem' \<Rightarrow>
        length mem' = length mem \<and>
        drop (nat bufsize) mem' = drop (nat bufsize) mem \<and>
        CHR 0x00 \<in> set (take (nat bufsize) mem'))"
proof
  assume a: "2 \<le> bufsize \<and> bufsize < 2 ^ 31 \<and> bufsize \<le> int (length mem) \<and>
   report \<noteq> [] \<and> (\<forall>msg \<in> set report. length msg < 2 ^ 31)"
  define cap where "cap = nat bufsize"
  from a have b: "2 \<le> bufsize" "bufsize < 2 ^ 31" "bufsize \<le> int (length mem)"
    by simp_all
  then have cap: "1 \<le> cap" "cap \<le> length mem" "cap \<le> 2 ^ 31" "1 < cap"
    and bs: "bufsize = int cap"
    by (simp_all add: cap_def)
  from a obtain m ms where report: "report = m # ms"
    by (cases report) auto
  with a have lm: "length m < 2 ^ 31" and lms: "\<forall>msg \<in> set ms. length msg < 2 ^ 31"
    by simp_all
  let ?k = "min (length (concat report)) (cap - 1)"
  let ?c = "min (length m) (cap - 1)"
  have init: "c_int (bufsize - 1) = int (cap - 1 - 0)"
    using b cap bs by (simp add: c_int_id)
  have first: "JeStatsPrint (\<lparr>jd_buf = int 0, jd_size = int (cap - 1 - 0)\<rparr>, mem) m =
                 Inr (\<lparr>jd_buf = int (0 + ?c), jd_size = int (cap - 1 - (0 + ?c))\<rparr>,
                      take 0 mem @ take ?c m @ CHR 0x00 # drop (0 + ?c + 1) mem)"
    by (rule JeStatsPrint_room) (use cap lm in simp_all)
  have rest: "je_malloc_stats_print JeStatsPrint
           (\<lparr>jd_buf = int ?c, jd_size = int (cap - 1 - ?c)\<rparr>, take ?c m @ CHR 0x00 # drop (?c + 1) mem) ms =
         Inr (\<lparr>jd_buf = int (min (length (m @ concat ms)) (cap - 1)),
                jd_size = int (cap - 1 - min (length (m @ concat ms)) (cap - 1))\<rparr>,
              take (min (length (m @ concat ms)) (cap - 1)) (m @ concat ms)
                @ CHR 0x00 # drop (min (length (m @ concat ms)) (cap - 1) + 1) mem)"
    by (rule stats_print_invariant [OF cap(1,2,3) lms refl])
  have r: "DumpStats report mem bufsize = Inr (take ?k (concat report) @ CHR 0x00 # drop (?k + 1) mem)"
    unfolding DumpStats_def Let_def init report
    using first rest by simp
  have k: "?k < cap"
    using cap by simp
  let ?mem' = "take ?k (concat report) @ CHR 0x00 # drop (?k + 1) mem"
  have p1: "length ?mem' = length mem"
    using k cap by simp
  have p2: "drop cap ?mem' = drop cap mem"
    using k by (rule drop_past_terminator) simp
  have "?mem' ! ?k = CHR 0x00"
    by (simp add: nth_append)
  moreover have "?k < length (take cap ?mem')"
    using k cap p1 by simp
  ultimately have p3: "CHR 0x00 \<in> set (take cap ?mem')"
    by (metis nth_mem nth_take k)
  show "DumpStats report mem bufsize =
     Inr (take (min (length (concat report)) (nat bufsize - 1)) (concat report)
          @ CHR 0x00 # drop (min (length (concat report)) (nat bufsize - 1) + 1) mem) \<and>
   (case DumpStats report mem bufsize of
      Inl e \<Rightarrow> False
    | Inr mem' \<Rightarrow>
        length mem' = length mem \<and>
        drop (nat bufsize) mem' = drop (nat bufsize) mem \<and>
        CHR 0x00 \<in> set (take (nat bufsize) mem'))"
    unfolding r cap_def [symmetric] using p1 p2 p3 by simp
qed

text \<open>
  Witness for the amended C5: a buffer of 8 bytes (capacity 8) and the report
  \<open>Begin\<close>, \<open> jemalloc\<close>: the first 7 characters and the terminator.
\<close>

theorem DumpStats_bounded_witness:
  "DumpStats [''Begin'', '' jemalloc''] ''XXXXXXXX'' 8 = Inr (''Begin j'' @ [CHR 0x00])"
proof -
  have h: "(2 :: int) \<le> 8 \<and> (8 :: int) < 2 ^ 31 \<and> 8 \<le> int (length ''XXXXXXXX'') \<and>
     [''Begin'', '' jemalloc''] \<noteq> [] \<and> (\<forall>msg \<in> set [''Begin'', '' jemalloc'']. length msg < 2 ^ 31)"
    by simp
  from DumpStats_bounded [of 8 "''XXXXXXXX''" "[''Begin'', '' jemalloc'']", THEN mp, OF h, THEN conjunct1]
  show ?thesis
    by simp
qed

subsection \<open>The ledger and the live blocks\<close>

text \<open>
  Where the guards name the same symbol, the ledger follows the heap: in a build with
  tracking, every call that returns keeps the recorded addresses equal to the addresses
  of the live blocks, provided \<^verbatim>\<open>AllocBytesAligned\<close> is compiled with its tracker
  calls or is not called.
\<close>

lemma store_bytes_dom: "store_bytes h p off d = Inr h' \<Longrightarrow> p \<in> dom h \<and> dom h' = dom h"
  by (auto simp add: store_bytes_def split: option.splits if_splits)

lemma CheckOverflowAlloc_dom: "CheckOverflowAlloc h p = Inr h' \<Longrightarrow> p \<in> dom h \<and> dom h' = dom h"
  unfolding CheckOverflowAlloc_def Let_def by (rule store_bytes_dom)

lemma CheckOverflowFree_dom: "CheckOverflowFree h p = Inr u \<Longrightarrow> p \<in> dom h"
  by (auto simp add: CheckOverflowFree_def load_bytes_def Let_def split: option.splits if_splits)

lemma je_malloc_dom: "je_malloc ans n h = (p, h1) \<Longrightarrow> p \<in> dom h1 \<Longrightarrow> dom h1 = insert p (dom h)"
  by (auto simp add: je_malloc_def split: option.splits)

lemma je_aligned_alloc_dom:
  "je_aligned_alloc ans a n h = (p, h1) \<Longrightarrow> p \<in> dom h1 \<Longrightarrow> dom h1 = insert p (dom h)"
  by (auto simp add: je_aligned_alloc_def split: option.splits)

lemma je_free_dom: "je_free p h = Inr h' \<Longrightarrow> dom h' = dom h - (if p = nullptr then {} else {p})"
  by (auto simp add: je_free_def split: option.splits if_splits)

lemma AllocBytes_ledger:
  assumes "CC_MEMORY_TRACKER cfg" "ledger_exact s" "AllocBytes cfg ans n cs s = Inr (p, s')"
  shows "ledger_exact s'"
proof -
  obtain q h1 where m: "je_malloc ans (n + MEM_CHECKTAG_SIZE cfg) (heap s) = (q, h1)"
    by (cases "je_malloc ans (n + MEM_CHECKTAG_SIZE cfg) (heap s)")
  with assms obtain h2 where c: "CheckOverflowAlloc h1 q = Inr h2"
    and s': "s' = \<lparr>heap = h2, tracker = RecordAlloc (tracker s) q n cs\<rparr>"
    by (auto simp add: AllocBytes_def split: sum.splits)
  from c have "q \<in> dom h1" "dom h2 = dom h1"
    using CheckOverflowAlloc_dom by blast+
  with m have "dom h2 = insert q (dom (heap s))"
    using je_malloc_dom by blast
  with assms(2) show ?thesis
    by (simp add: s' ledger_exact_def RecordAlloc_def)
qed

lemma AllocBytesAligned_ledger:
  assumes "COCOS_MEMORY_TRACKER cfg" "ledger_exact s" "AllocBytesAligned cfg ans a n cs s = Inr (p, s')"
  shows "ledger_exact s'"
proof -
  obtain q h1 where m: "je_aligned_alloc ans a (n + MEM_CHECKTAG_SIZE cfg) (heap s) = (q, h1)"
    by (cases "je_aligned_alloc ans a (n + MEM_CHECKTAG_SIZE cfg) (heap s)")
  with assms obtain h2 where c: "CheckOverflowAlloc h1 q = Inr h2"
    and s': "s' = \<lparr>heap = h2, tracker = RecordAlloc (tracker s) q n cs\<rparr>"
    by (auto simp add: AllocBytesAligned_def split: sum.splits)
  from c have "q \<in> dom h1" "dom h2 = dom h1"
    using CheckOverflowAlloc_dom by blast+
  with m have "dom h2 = insert q (dom (heap s))"
    using je_aligned_alloc_dom by blast
  with assms(2) show ?thesis
    by (simp add: s' ledger_exact_def RecordAlloc_def)
qed

lemma DeallocBytes_ledger:
  assumes "CC_MEMORY_TRACKER cfg" "ledger_exact s" "DeallocBytes cfg ptr s = Inr s'"
  shows "ledger_exact s'"
proof (cases "ptr = nullptr")
  case True
  with assms show ?thesis
    by (simp add: DeallocBytes_def)
next
  case False
  with assms obtain h' where f: "je_free ptr (heap s) = Inr h'"
    and s': "s' = \<lparr>heap = h', tracker = RecordFree (tracker s) ptr\<rparr>"
    by (auto simp add: DeallocBytes_def split: sum.splits)
  from f False have "dom h' = dom (heap s) - {ptr}"
    using je_free_dom [of ptr "heap s" h'] by simp
  with assms(2) show ?thesis
    by (simp add: s' ledger_exact_def RecordFree_def)
qed

lemma ReallocBytes_ledger:
  assumes t: "CC_MEMORY_TRACKER cfg" and inv: "ledger_exact s"
    and r: "ReallocBytes cfg ans ptr n cs s = Inr (p, s')"
  shows "ledger_exact s'"
proof (cases "ptr = nullptr")
  case True
  show ?thesis
  proof (cases "n = 0")
    case True
    with \<open>ptr = nullptr\<close> t r inv show ?thesis
      by (simp add: ReallocBytes_def)
  next
    case False
    with \<open>ptr = nullptr\<close> t r have "AllocBytes cfg ans n cs s = Inr (p, s')"
      by (simp add: ReallocBytes_def AllocBytes_def)
    with t inv show ?thesis
      by (rule AllocBytes_ledger)
  qed
next
  case False
  show ?thesis
  proof (cases "n = 0")
    case True
    with False t r have "DeallocBytes cfg ptr s = Inr s'"
      by (auto simp add: ReallocBytes_def DeallocBytes_def split: sum.splits)
    with t inv show ?thesis
      by (rule DeallocBytes_ledger)
  next
    case n: False
    let ?oldsz = "je_malloc_usable_size (heap s) ptr - MEM_CHECKTAG_SIZE cfg"
    let ?k = "if ?oldsz > n then n else ?oldsz"
    obtain q h1 where m: "je_malloc ans (n + MEM_CHECKTAG_SIZE cfg) (heap s) = (q, h1)"
      by (cases "je_malloc ans (n + MEM_CHECKTAG_SIZE cfg) (heap s)")
    from r t False n m obtain bs h2 h3 h4 where
      st: "store_bytes h1 q 0 bs = Inr h2" and
      ca: "CheckOverflowAlloc h2 q = Inr h3" and
      fr: "je_free ptr h3 = Inr h4" and
      s': "s' = \<lparr>heap = h4, tracker = RecordFree (RecordAlloc (tracker s) q n cs) ptr\<rparr>"
      by (auto simp add: ReallocBytes_def Let_def split: sum.splits)
    from st have "q \<in> dom h1" "dom h2 = dom h1"
      using store_bytes_dom by blast+
    moreover from ca have "dom h3 = dom h2"
      using CheckOverflowAlloc_dom by blast
    moreover from fr False have "dom h4 = dom h3 - {ptr}"
      using je_free_dom [of ptr h3 h4] by simp
    moreover from m \<open>q \<in> dom h1\<close> have "dom h1 = insert q (dom (heap s))"
      by (rule je_malloc_dom)
    ultimately have "dom h4 = insert q (dom (heap s)) - {ptr}"
      by simp
    with inv show ?thesis
      by (simp add: s' ledger_exact_def RecordAlloc_def RecordFree_def)
  qed
qed

lemma perform_ledger:
  assumes "CC_MEMORY_TRACKER cfg" "COCOS_MEMORY_TRACKER cfg \<or> \<not> aligned_request r"
    "ledger_exact s" "perform cfg r ans cs s = Inr s'"
  shows "ledger_exact s'"
proof (cases r)
  case (Allocate n)
  with assms show ?thesis
    by (auto split: sum.splits intro: AllocBytes_ledger)
next
  case (AllocateAligned a n)
  with assms show ?thesis
    by (auto split: sum.splits intro: AllocBytesAligned_ledger)
next
  case (Reallocate ptr n)
  with assms show ?thesis
    by (auto split: sum.splits intro: ReallocBytes_ledger)
next
  case (Deallocate ptr)
  with assms show ?thesis
    by (auto intro: DeallocBytes_ledger)
qed

lemma run_ledger:
  assumes "CC_MEMORY_TRACKER cfg"
    "COCOS_MEMORY_TRACKER cfg \<or> (\<forall>x \<in> set reqs. \<not> aligned_request (fst x))"
    "ledger_exact s" "run cfg reqs s = Inr s'"
  shows "ledger_exact s'"
  using assms(2-)
proof (induction reqs arbitrary: s)
  case Nil
  then show ?case by simp
next
  case (Cons x reqs)
  obtain r ans cs where x: "x = (r, ans, cs)"
    by (cases x)
  with Cons.prems obtain s1 where p: "perform cfg r ans cs s = Inr s1" and rest: "run cfg reqs s1 = Inr s'"
    by (auto split: sum.splits)
  from Cons.prems x have "COCOS_MEMORY_TRACKER cfg \<or> \<not> aligned_request r"
    by auto
  with assms(1) have "ledger_exact s1"
    using Cons.prems(2) p by (rule perform_ledger)
  moreover from Cons.prems have "COCOS_MEMORY_TRACKER cfg \<or> (\<forall>x \<in> set reqs. \<not> aligned_request (fst x))"
    by auto
  ultimately show ?case
    using rest Cons.IH by blast
qed

end
